theory Spec2Isabelle
  imports Main "HOL-Library.Word"
begin

section \<open>OPTIGA Trust driver: dispatcher, register access and command encoders\<close>

text \<open>
  A shallow embedding of \<^verbatim>\<open>drivers/crypto/optiga/crypto_optiga.c\<close> (the command
  dispatcher), of \<^verbatim>\<open>optiga_reg_read\<close> (the two-phase register read of the
  physical layer) and of the Trust X command encoders \<^verbatim>\<open>optrust_data_get\<close> and
  \<^verbatim>\<open>optrust_ecdsa_verify_oid\<close>.

  C \<^verbatim>\<open>int\<close> results are \<open>int\<close>, bytes are \<open>8 word\<close>, buffers are byte lists.
  The layers below the dispatcher (PHY init, data-link init, network/transport) are not
  part of the sources at hand: they are parameters of the model, each a state-passing
  function on an arbitrary device state \<open>'d\<close>.
\<close>

unbundle bit_operations_syntax

type_synonym u8 = "8 word"
type_synonym u16 = "16 word"

subsection \<open>Constants\<close>

definition EIO :: int where
  "EIO = 5"

definition ENOMEM :: int where
  "ENOMEM = 12"

definition EINVAL :: int where
  "EINVAL = 22"

definition OPTIGA_MAX_RESET :: int where
  "OPTIGA_MAX_RESET = 3"

definition OPTIGA_STATUS_CODE_SUCCESS :: int where
  "OPTIGA_STATUS_CODE_SUCCESS = 0"

definition OPTIGA_GET_ERROR_RESPONSE_LEN :: nat where
  "OPTIGA_GET_ERROR_RESPONSE_LEN = 5"

definition OPTIGA_OPEN_APPLICATION_RESPONSE_LEN :: nat where
  "OPTIGA_OPEN_APPLICATION_RESPONSE_LEN = 4"

text \<open>GetDataObject on the error-code object: the error code is read, not cleared.\<close>

definition error_code_apdu :: "u8 list" where
  "error_code_apdu = [0x01, 0x00, 0x00, 0x06, 0xF1, 0xC2, 0x00, 0x00, 0x00, 0x01]"

definition optiga_open_application_apdu :: "u8 list" where
  "optiga_open_application_apdu =
     [0xF0, 0x00, 0x00, 0x10,
      0xD2, 0x76, 0x00, 0x00, 0x04, 0x47, 0x65, 0x6E,
      0x41, 0x75, 0x74, 0x68, 0x41, 0x70, 0x70, 0x6C]"

subsection \<open>The layers below the dispatcher\<close>

text \<open>
  \<open>optiga_nettran_recv_apdu lo cap d\<close> is the call
  \<^verbatim>\<open>optiga_nettran_recv_apdu(dev, buf, &len)\<close> with \<^verbatim>\<open>len = cap\<close> on entry: it returns
  the error code and the bytes \<^verbatim>\<open>buf[0 .. len)\<close> as they are on return, so that the
  length of that list is the value of \<^verbatim>\<open>len\<close> on return.
\<close>

record 'd lower =
  optiga_phy_init :: "'d \<Rightarrow> int \<times> 'd"
  optiga_data_init :: "'d \<Rightarrow> int \<times> 'd"
  optiga_nettran_init :: "'d \<Rightarrow> int \<times> 'd"
  optiga_nettran_send_apdu :: "u8 list \<Rightarrow> 'd \<Rightarrow> int \<times> 'd"
  optiga_nettran_recv_apdu :: "nat \<Rightarrow> 'd \<Rightarrow> (int \<times> u8 list) \<times> 'd"

subsection \<open>Descriptors and driver state\<close>

text \<open>
  \<^verbatim>\<open>struct optiga_apdu\<close>. \<open>apdu_addr\<close> is the address of the descriptor, which is
  what identifies its \<^verbatim>\<open>finished\<close> signal. \<open>tx_buf\<close> holds the \<^verbatim>\<open>tx_len\<close> bytes to
  send. \<open>rx_len\<close> is the capacity on submission and the response length afterwards;
  \<open>rx_buf\<close> holds the bytes \<^verbatim>\<open>rx_buf[0 .. rx_len)\<close>. \<open>finished\<close> is the poll signal:
  its \<^verbatim>\<open>signaled\<close> flag and its \<^verbatim>\<open>result\<close>.
\<close>

record optiga_apdu =
  apdu_addr :: nat
  tx_buf :: "u8 list"
  rx_buf :: "u8 list"
  rx_len :: nat
  finished :: "bool \<times> int"

text \<open>
  \<^verbatim>\<open>struct optiga_data\<close> together with what the worker acts on: the state of the
  lower layers and of the element behind them (\<open>device\<close>), and the record of every
  \<^verbatim>\<open>k_poll_signal_raise\<close> in the order of the calls (\<open>raised\<close>), each with the
  descriptor as it is at that moment.
\<close>

record 'd optiga_data =
  reset_counter :: int
  apdu_queue :: "optiga_apdu list"
  device :: 'd
  raised :: "optiga_apdu list"

text \<open>
  What stops a thread: a failed \<^verbatim>\<open>__ASSERT\<close>, a \<^verbatim>\<open>k_poll\<close> on a signal that is never
  raised, and a write past the end of a buffer (undefined in C, a fault of its own here).
\<close>

datatype fault = Assert_failed | Wait_forever | Out_of_bounds

text \<open>
  Modelled from the spec: the kernel's poll signal (\<^verbatim>\<open>k_poll_signal_init\<close>,
  \<^verbatim>\<open>k_poll_signal_raise\<close>) and its FIFO, which are not among the sources. A completion
  signal carries a signed outcome; initialising it clears the \<^verbatim>\<open>signaled\<close> flag, raising
  it sets the flag and the result. The queue hands descriptors out in the order in which
  they were put in.
\<close>

definition k_poll_signal_init :: "optiga_apdu \<Rightarrow> optiga_apdu" where
  "k_poll_signal_init apdu = apdu\<lparr>finished := (False, snd (finished apdu))\<rparr>"

definition k_poll_signal_raise :: "optiga_apdu \<Rightarrow> int \<Rightarrow> 'd optiga_data \<Rightarrow> 'd optiga_data" where
  "k_poll_signal_raise apdu res data =
     data\<lparr>raised := raised data @ [apdu\<lparr>finished := (True, res)\<rparr>]\<rparr>"

subsection \<open>OpenApplication, GetErrorCode and reset\<close>

definition optiga_open_application :: "'d lower \<Rightarrow> 'd \<Rightarrow> int \<times> 'd" where
  "optiga_open_application lo dev =
     (case optiga_nettran_send_apdu lo optiga_open_application_apdu dev of
        (err, dev1) \<Rightarrow>
          if err \<noteq> 0 then (err, dev1)
          else
            (let resp = replicate OPTIGA_OPEN_APPLICATION_RESPONSE_LEN (0 :: u8);
                 resp_len = OPTIGA_OPEN_APPLICATION_RESPONSE_LEN
             in case optiga_nettran_recv_apdu lo OPTIGA_OPEN_APPLICATION_RESPONSE_LEN dev1 of
                  ((err2, tmp_buf), dev2) \<Rightarrow>
                    if err2 \<noteq> 0 then (err2, dev2)
                    else if resp_len \<noteq> length tmp_buf \<or> take resp_len tmp_buf \<noteq> resp
                      then (- EIO, dev2)
                      else (0, dev2)))"

text \<open>
  \<open>optiga_get_error_code lo err_code dev\<close>: \<open>err_code\<close> is the byte behind the output
  pointer before the call; the second component of the result is that byte after it.
\<close>

definition optiga_get_error_code :: "'d lower \<Rightarrow> u8 \<Rightarrow> 'd \<Rightarrow> int \<times> u8 \<times> 'd" where
  "optiga_get_error_code lo err_code dev =
     (case optiga_nettran_send_apdu lo error_code_apdu dev of
        (err, dev1) \<Rightarrow>
          if err \<noteq> 0 then (err, err_code, dev1)
          else
            (case optiga_nettran_recv_apdu lo OPTIGA_GET_ERROR_RESPONSE_LEN dev1 of
               ((err2, tmp_buf), dev2) \<Rightarrow>
                 if err2 \<noteq> 0 then (err2, err_code, dev2)
                 else if length tmp_buf \<noteq> OPTIGA_GET_ERROR_RESPONSE_LEN
                   then (- EIO, err_code, dev2)
                 else if tmp_buf ! 0 \<noteq> 0
                   then (- EIO, err_code, dev2)
                 else if tmp_buf ! 2 \<noteq> 0x00 \<or> tmp_buf ! 3 \<noteq> 0x01
                   then (- EIO, err_code, dev2)
                 else (0, tmp_buf ! 4, dev2)))"

definition optiga_reset :: "'d lower \<Rightarrow> 'd \<Rightarrow> int \<times> 'd" where
  "optiga_reset lo dev =
     (case optiga_phy_init lo dev of
        (err, dev1) \<Rightarrow>
          if err \<noteq> 0 then (err, dev1)
          else
            (case optiga_data_init lo dev1 of
               (err2, dev2) \<Rightarrow>
                 if err2 \<noteq> 0 then (err2, dev2)
                 else
                   (case optiga_nettran_init lo dev2 of
                      (err3, dev3) \<Rightarrow>
                        if err3 \<noteq> 0 then (err3, dev3)
                        else optiga_open_application lo dev3)))"

subsection \<open>The dispatcher\<close>

definition enqueue_apdu :: "optiga_apdu \<Rightarrow> 'd optiga_data \<Rightarrow> int \<times> 'd optiga_data" where
  "enqueue_apdu apdu data =
     (0, data\<lparr>apdu_queue := apdu_queue data @ [k_poll_signal_init apdu]\<rparr>)"

definition optiga_transfer_apdu :: "'d lower \<Rightarrow> optiga_apdu \<Rightarrow> 'd \<Rightarrow> int \<times> optiga_apdu \<times> 'd" where
  "optiga_transfer_apdu lo apdu dev =
     (case optiga_nettran_send_apdu lo (tx_buf apdu) dev of
        (err, dev1) \<Rightarrow>
          if err \<noteq> 0 then (err, apdu, dev1)
          else
            (case optiga_nettran_recv_apdu lo (rx_len apdu) dev1 of
               ((err2, rx), dev2) \<Rightarrow>
                 (err2, apdu\<lparr>rx_buf := rx, rx_len := length rx\<rparr>, dev2)))"

definition OPTIGA_APDU_STA_OFFSET :: nat where
  "OPTIGA_APDU_STA_OFFSET = 0"

definition OPTIGA_APDU_STA_SUCCESS :: u8 where
  "OPTIGA_APDU_STA_SUCCESS = 0"

definition optiga_apdu_is_error :: "u8 list \<Rightarrow> bool" where
  "optiga_apdu_is_error apdu_start \<longleftrightarrow>
     apdu_start ! OPTIGA_APDU_STA_OFFSET \<noteq> OPTIGA_APDU_STA_SUCCESS"

text \<open>
  The invalidation loop after a reset: raise the signal of the descriptor at hand with
  \<^verbatim>\<open>-EIO\<close>, fetch the next one without waiting, until the queue is empty.
\<close>

fun invalidate_queue :: "optiga_apdu \<Rightarrow> optiga_apdu list \<Rightarrow> 'd optiga_data \<Rightarrow> 'd optiga_data" where
  "invalidate_queue apdu [] data =
     (k_poll_signal_raise apdu (- EIO) data)\<lparr>apdu_queue := []\<rparr>"
| "invalidate_queue apdu (nxt # q) data =
     invalidate_queue nxt q (k_poll_signal_raise apdu (- EIO) data)"

text \<open>
  One pass through the body of the worker's endless loop, for the descriptor \<open>apdu\<close>
  that \<^verbatim>\<open>k_fifo_get\<close> has just taken off the queue (\<open>data\<close> holds the rest of it).
  The \<^verbatim>\<open>__ASSERT\<close> on the length of the response is a branch of its own: when it
  fails, the worker stops and raises no signal.
\<close>

definition worker_iteration ::
  "'d lower \<Rightarrow> optiga_apdu \<Rightarrow> 'd optiga_data \<Rightarrow> fault + 'd optiga_data" where
  "worker_iteration lo apdu data =
     (if reset_counter data > OPTIGA_MAX_RESET
      then Inr (k_poll_signal_raise apdu (- EIO) data)
      else
        (case optiga_transfer_apdu lo apdu (device data) of
           (err, apdu1, dev1) \<Rightarrow>
             if err \<noteq> 0 then
               (let data1 = data\<lparr>reset_counter := reset_counter data + 1, device := dev1\<rparr>
                in case optiga_reset lo dev1 of
                     (err2, dev2) \<Rightarrow>
                       Inr (invalidate_queue apdu1 (apdu_queue data1) (data1\<lparr>device := dev2\<rparr>)))
             else
               (let data1 = data\<lparr>reset_counter := 0, device := dev1\<rparr>
                in if \<not> rx_len apdu1 > 0 then Inl Assert_failed
                   else if optiga_apdu_is_error (rx_buf apdu1) then
                     (case optiga_get_error_code lo 0 dev1 of
                        (err3, optiga_err_code, dev3) \<Rightarrow>
                          if err3 \<noteq> 0
                          then Inr (k_poll_signal_raise apdu1 err3 (data1\<lparr>device := dev3\<rparr>))
                          else Inr (k_poll_signal_raise apdu1 (uint optiga_err_code)
                                      (data1\<lparr>device := dev3\<rparr>)))
                   else Inr (k_poll_signal_raise apdu1 OPTIGA_STATUS_CODE_SUCCESS data1))))"

text \<open>
  The worker thread: take the descriptor at the head of the queue and run the loop body,
  for ever. \<^verbatim>\<open>k_fifo_get(..., K_FOREVER)\<close> on an empty queue suspends the thread, which
  is where a run of the model ends.
\<close>

function optiga_worker :: "'d lower \<Rightarrow> 'd optiga_data \<Rightarrow> fault + 'd optiga_data" where
  "optiga_worker lo data =
     (case apdu_queue data of
        [] \<Rightarrow> Inr data
      | apdu # rest \<Rightarrow>
          (case worker_iteration lo apdu (data\<lparr>apdu_queue := rest\<rparr>) of
             Inl f \<Rightarrow> Inl f
           | Inr data' \<Rightarrow> optiga_worker lo data'))"
  by pat_completeness auto
termination
proof (relation "measure (\<lambda>(lo, data). length (apdu_queue data))")
  show "wf (measure (\<lambda>(lo :: 'd lower, data :: 'd optiga_data). length (apdu_queue data)))"
    by simp
next
  fix lo :: "'d lower" and data :: "'d optiga_data" and apdu rest and data' :: "'d optiga_data"
  assume q: "apdu_queue data = apdu # rest"
    and it: "worker_iteration lo apdu (data\<lparr>apdu_queue := rest\<rparr>) = Inr data'"
  have drained: "apdu_queue (invalidate_queue a q d) = []"
    for a q and d :: "'d optiga_data"
    by (induction a q d rule: invalidate_queue.induct) simp_all
  have "length (apdu_queue data') \<le> length rest"
    using it
    by (auto simp: worker_iteration_def k_poll_signal_raise_def drained Let_def
             split: if_splits prod.splits)
  with q show "((lo, data'), (lo, data)) \<in> measure (\<lambda>(lo, data). length (apdu_queue data))"
    by simp
qed

text \<open>
  What the worker asserts of the transport: a receive that reports success has delivered
  at least one byte.
\<close>

definition nonempty_responses :: "'d lower \<Rightarrow> bool" where
  "nonempty_responses lo \<longleftrightarrow>
     (\<forall>cap d rx d'. optiga_nettran_recv_apdu lo cap d = ((0, rx), d') \<longrightarrow> rx \<noteq> [])"

text \<open>
  The states the driver can be in later than \<open>d\<close>: reached from \<open>d\<close> by submissions and
  by passes of the worker through its loop, in any order and number.
\<close>

inductive later :: "'d lower \<Rightarrow> 'd optiga_data \<Rightarrow> 'd optiga_data \<Rightarrow> bool"
  for lo :: "'d lower" and d :: "'d optiga_data" where
  now: "later lo d d"
| submit: "later lo d d1 \<Longrightarrow> later lo d (snd (enqueue_apdu a d1))"
| serve: "later lo d d1 \<Longrightarrow> apdu_queue d1 = a # q \<Longrightarrow>
          worker_iteration lo a (d1\<lparr>apdu_queue := q\<rparr>) = Inr d2 \<Longrightarrow> later lo d d2"

subsection \<open>Command encoders (Trust X)\<close>

text \<open>
  Modelled from the spec: \<^verbatim>\<open>sys_put_be16\<close> and \<^verbatim>\<open>sys_get_be16\<close> of
  \<^verbatim>\<open>sys/byteorder.h\<close>, which is not among the sources: a 16-bit value stored and read
  big-endian, here at offset \<open>off\<close> of the buffer.
\<close>

definition sys_put_be16 :: "u16 \<Rightarrow> nat \<Rightarrow> u8 list \<Rightarrow> u8 list" where
  "sys_put_be16 val off buf = buf[off := ucast (drop_bit 8 val), off + 1 := ucast val]"

definition sys_get_be16 :: "nat \<Rightarrow> u8 list \<Rightarrow> u16" where
  "sys_get_be16 off buf = push_bit 8 (ucast (buf ! off)) OR ucast (buf ! (off + 1))"

text \<open>\<^verbatim>\<open>memcpy(&buf[off], src, length src)\<close>, for a destination that lies inside \<open>buf\<close>.\<close>

definition memcpy_at :: "nat \<Rightarrow> u8 list \<Rightarrow> u8 list \<Rightarrow> u8 list" where
  "memcpy_at off src buf = take off buf @ src @ drop (off + length src) buf"

definition OPTIGA_TRUSTX_CMD_GET_DATA_OBJECT :: u8 where
  "OPTIGA_TRUSTX_CMD_GET_DATA_OBJECT = 0x81"

definition OPTIGA_TRUSTX_CMD_VERIFY_SIGN :: u8 where
  "OPTIGA_TRUSTX_CMD_VERIFY_SIGN = 0xB2"

definition OPTIGA_TRUSTX_CMD_OFFSET :: nat where
  "OPTIGA_TRUSTX_CMD_OFFSET = 0"

definition OPTIGA_TRUSTX_PARAM_OFFSET :: nat where
  "OPTIGA_TRUSTX_PARAM_OFFSET = 1"

definition OPTIGA_TRUSTX_IN_LEN_OFFSET :: nat where
  "OPTIGA_TRUSTX_IN_LEN_OFFSET = 2"

definition OPTIGA_TRUSTX_IN_DATA_OFFSET :: nat where
  "OPTIGA_TRUSTX_IN_DATA_OFFSET = 4"

definition OPTIGA_TRUSTX_IN_LEN_MAX :: nat where
  "OPTIGA_TRUSTX_IN_LEN_MAX = 0xFFFF"

definition OPTIGA_TRUSTX_STA_OFFSET :: nat where
  "OPTIGA_TRUSTX_STA_OFFSET = 0"

definition OPTIGA_TRUSTX_OUT_LEN_OFFSET :: nat where
  "OPTIGA_TRUSTX_OUT_LEN_OFFSET = 2"

definition OPTIGA_TRUSTX_OUT_DATA_OFFSET :: nat where
  "OPTIGA_TRUSTX_OUT_DATA_OFFSET = 4"

definition SET_TLV_OVERHEAD :: nat where
  "SET_TLV_OVERHEAD = 3"

definition SET_TLV_U16_LEN :: nat where
  "SET_TLV_U16_LEN = 5"

definition OPTIGA_GET_DATA_CMD_LEN :: nat where
  "OPTIGA_GET_DATA_CMD_LEN = 10"

text \<open>
  The writers take the offset of their destination in the APDU buffer and return the
  number of bytes written together with the buffer.
\<close>

definition set_tlv :: "nat \<Rightarrow> u8 \<Rightarrow> u8 list \<Rightarrow> u8 list \<Rightarrow> nat \<times> u8 list" where
  "set_tlv off tag val buf =
     (length val + SET_TLV_OVERHEAD,
      memcpy_at (off + 3) val (sys_put_be16 (of_nat (length val)) (off + 1) (buf[off := tag])))"

definition set_tlv_u16 :: "nat \<Rightarrow> u8 \<Rightarrow> u16 \<Rightarrow> u8 list \<Rightarrow> nat \<times> u8 list" where
  "set_tlv_u16 off tag val buf =
     (SET_TLV_U16_LEN, sys_put_be16 val (off + 3) (sys_put_be16 2 (off + 1) (buf[off := tag])))"

definition cmds_set_apdu_header :: "u8 list \<Rightarrow> u8 \<Rightarrow> u8 \<Rightarrow> u16 \<Rightarrow> nat \<times> u8 list" where
  "cmds_set_apdu_header apdu_start cmd param in_len =
     (OPTIGA_TRUSTX_IN_DATA_OFFSET,
      sys_put_be16 in_len OPTIGA_TRUSTX_IN_LEN_OFFSET
        (apdu_start[OPTIGA_TRUSTX_CMD_OFFSET := cmd, OPTIGA_TRUSTX_PARAM_OFFSET := param]))"

text \<open>Both output pointers are given at every call: the result is (offset, sta, out_len).\<close>

definition cmds_get_apdu_header :: "u8 list \<Rightarrow> nat \<times> u8 \<times> u16" where
  "cmds_get_apdu_header apdu_start =
     (OPTIGA_TRUSTX_IN_DATA_OFFSET,
      apdu_start ! OPTIGA_TRUSTX_STA_OFFSET,
      sys_get_be16 OPTIGA_TRUSTX_OUT_LEN_OFFSET apdu_start)"

text \<open>
  \<^verbatim>\<open>struct optrust_ctx\<close>: the APDU buffer (\<^verbatim>\<open>apdu_buf_len\<close> is its length) and the
  embedded descriptor. The device is the driver state that the functions below thread.
\<close>

record optrust_ctx =
  apdu_buf :: "u8 list"
  apdu :: optiga_apdu

text \<open>
  Submit the context's descriptor and wait for its signal. The caller sleeps in
  \<^verbatim>\<open>k_poll\<close> while the worker runs; it wakes up with the result of the signal raised for
  its own descriptor since the submission, and never if there is none.
\<close>

definition cmds_submit_apdu ::
  "'d lower \<Rightarrow> optrust_ctx \<Rightarrow> 'd optiga_data \<Rightarrow> fault + (int \<times> optrust_ctx \<times> 'd optiga_data)" where
  "cmds_submit_apdu lo ctx data =
     (case enqueue_apdu (apdu ctx) data of
        (_, data1) \<Rightarrow>
          (case optiga_worker lo data1 of
             Inl f \<Rightarrow> Inl f
           | Inr data2 \<Rightarrow>
               (case find (\<lambda>x. apdu_addr x = apdu_addr (apdu ctx))
                       (rev (drop (length (raised data)) (raised data2))) of
                  None \<Rightarrow> Inl Wait_forever
                | Some x \<Rightarrow> Inr (snd (finished x), ctx\<lparr>apdu := x\<rparr>, data2))))"

text \<open>
  The encoders point \<^verbatim>\<open>rx_buf\<close> into the APDU buffer of the context, so the transport
  writes the response into that buffer. \<open>received_into buf off rx\<close> is the APDU buffer
  \<open>buf\<close> after the bytes \<open>rx\<close> have been received at its offset \<open>off\<close>.
\<close>

definition received_into :: "u8 list \<Rightarrow> nat \<Rightarrow> u8 list \<Rightarrow> u8 list" where
  "received_into buf off rx = take (length buf) (memcpy_at off rx buf)"

text \<open>
  \<open>optrust_data_get lo ctx oid offs buf len data\<close>: \<open>buf\<close> is the caller's output buffer
  and \<open>len\<close> the value behind \<^verbatim>\<open>len\<close> on entry. The result is the return code, the
  output buffer, the value behind \<^verbatim>\<open>len\<close> on return, the context and the driver state.

  \<^verbatim>\<open>tx_buf\<close> and \<^verbatim>\<open>rx_buf\<close> of the descriptor both point at the start of the APDU
  buffer: the response is received over the request. After the exchange the APDU buffer
  holds the response, followed by what the response has left of the request, and the
  \<^verbatim>\<open>tx_len\<close> bytes behind \<^verbatim>\<open>tx_buf\<close> are the first bytes of that.
\<close>

definition optrust_data_get ::
  "'d lower \<Rightarrow> optrust_ctx \<Rightarrow> u16 \<Rightarrow> nat \<Rightarrow> u8 list \<Rightarrow> nat \<Rightarrow> 'd optiga_data \<Rightarrow>
     fault + (int \<times> u8 list \<times> nat \<times> optrust_ctx \<times> 'd optiga_data)" where
  "optrust_data_get lo ctx oid offs buf len data =
     (if \<not> length (apdu_buf ctx) \<ge> OPTIGA_GET_DATA_CMD_LEN then Inl Assert_failed
      else
        (case cmds_set_apdu_header (apdu_buf ctx) OPTIGA_TRUSTX_CMD_GET_DATA_OBJECT 0x00 0x06 of
           (tx0, b0) \<Rightarrow>
             (let b1 = sys_put_be16 oid tx0 b0;
                  tx1 = tx0 + 2;
                  b2 = sys_put_be16 (of_nat offs) tx1 b1;
                  tx2 = tx1 + 2;
                  b3 = sys_put_be16 (of_nat len) tx2 b2;
                  tx3 = tx2 + 2;
                  ctx1 = ctx\<lparr>apdu_buf := b3,
                             apdu := (apdu ctx)\<lparr>tx_buf := take tx3 b3, rx_buf := b3,
                                                 rx_len := length (apdu_buf ctx)\<rparr>\<rparr>
              in case cmds_submit_apdu lo ctx1 data of
                   Inl f \<Rightarrow> Inl f
                 | Inr (result_code, ctx2, data2) \<Rightarrow>
                     (let mem = received_into b3 0 (rx_buf (apdu ctx2));
                          ctx3 = ctx2\<lparr>apdu_buf := mem,
                                     apdu := (apdu ctx2)\<lparr>tx_buf := take tx3 mem\<rparr>\<rparr>
                      in if result_code \<noteq> OPTIGA_STATUS_CODE_SUCCESS
                         then Inr (- EIO, buf, len, ctx3, data2)
                         else if \<not> rx_len (apdu ctx3) \<ge> 4 then Inl Assert_failed
                         else
                           (case cmds_get_apdu_header (rx_buf (apdu ctx3)) of
                              (rx0, sta, out_len) \<Rightarrow>
                                if \<not> sta = 0x00 then Inl Assert_failed
                                else if unat out_len
                                          \<noteq> rx_len (apdu ctx3) - OPTIGA_TRUSTX_OUT_DATA_OFFSET
                                  then Inr (- EIO, buf, len, ctx3, data2)
                                else if unat out_len > len
                                  then Inr (- ENOMEM, buf, len, ctx3, data2)
                                else Inr (0,
                                          memcpy_at 0
                                            (take (unat out_len) (drop rx0 (rx_buf (apdu ctx3)))) buf,
                                          unat out_len, ctx3, data2))))))"

text \<open>
  The initial value of the local \<^verbatim>\<open>asn1_sig_len\<close> of \<^verbatim>\<open>optrust_ecdsa_verify_oid\<close>:
  \<^verbatim>\<open>ctx->apdu_buf_len - (ctx->apdu_buf - tx_buf)\<close> with \<^verbatim>\<open>tx_buf = ctx->apdu_buf + tx_off\<close>.
  The pointer difference is converted to \<^verbatim>\<open>size_t\<close>, here 32 bits wide, and the
  subtraction wraps.
\<close>

definition asn1_sig_len :: "nat \<Rightarrow> nat \<Rightarrow> 32 word" where
  "asn1_sig_len apdu_buf_len tx_off = of_nat apdu_buf_len - (0 - of_nat tx_off)"

text \<open>
  \<open>optrust_ecdsa_verify_oid enc lo ctx oid digest signature data\<close>. The signature encoder
  \<^verbatim>\<open>ecdsa_rs_to_asn1_integers(r, s, rs_len, out, &out_len)\<close> of \<^verbatim>\<open>ecdsa_utils.h\<close> is
  not among the sources: it is the parameter \<open>enc r s rs_len cap\<close>, called with the
  capacity \<open>cap\<close> that \<^verbatim>\<open>out_len\<close> holds on entry, which returns the bytes it wrote
  (their number is \<^verbatim>\<open>out_len\<close> on return) or \<open>None\<close> for \<^verbatim>\<open>false\<close>.
  \<^verbatim>\<open>rx_buf\<close> points behind the request: the response is received into the rest of the
  APDU buffer.
\<close>

definition optrust_ecdsa_verify_oid ::
  "(u8 list \<Rightarrow> u8 list \<Rightarrow> nat \<Rightarrow> nat \<Rightarrow> u8 list option) \<Rightarrow> 'd lower \<Rightarrow> optrust_ctx \<Rightarrow> u16 \<Rightarrow>
     u8 list \<Rightarrow> u8 list \<Rightarrow> 'd optiga_data \<Rightarrow> fault + (int \<times> optrust_ctx \<times> 'd optiga_data)" where
  "optrust_ecdsa_verify_oid enc lo ctx oid digest signature data =
     (if \<not> length (apdu_buf ctx) \<ge> length digest + 15 then Inl Assert_failed
      else
        (let tx0 = OPTIGA_TRUSTX_IN_DATA_OFFSET
         in case set_tlv tx0 0x01 digest (apdu_buf ctx) of
              (n1, b1) \<Rightarrow>
                (let tx1 = tx0 + n1;
                     b2 = b1[tx1 := 0x02];
                     tx2 = tx1 + 1;
                     sig_len_field = tx2;
                     tx3 = tx2 + 2
                 in if \<not> length signature mod 2 = 0 then Inl Assert_failed
                    else
                      (case enc (take (length signature div 2) signature)
                                (drop (length signature div 2) signature)
                                (length signature div 2)
                                (unat (asn1_sig_len (length (apdu_buf ctx)) tx3)) of
                         None \<Rightarrow> Inr (- EINVAL, ctx\<lparr>apdu_buf := b2\<rparr>, data)
                       | Some sg \<Rightarrow>
                           if tx3 + length sg > length b2 then Inl Out_of_bounds
                           else
                             (let b3 = memcpy_at tx3 sg b2;
                                  tx4 = tx3 + length sg
                              in if length digest + 11 + length sg > OPTIGA_TRUSTX_IN_LEN_MAX
                                 then Inr (- EINVAL, ctx\<lparr>apdu_buf := b3\<rparr>, data)
                                 else
                                   (let b4 = sys_put_be16 (of_nat (length sg)) sig_len_field b3
                                    in case cmds_set_apdu_header b4 OPTIGA_TRUSTX_CMD_VERIFY_SIGN 0x11
                                              (of_nat (length digest + 11 + length sg)) of
                                         (_, b5) \<Rightarrow>
                                           if tx4 + SET_TLV_U16_LEN > length b5 then Inl Out_of_bounds
                                           else
                                             (case set_tlv_u16 tx4 0x04 oid b5 of
                                                (n2, b6) \<Rightarrow>
                                                  (let tx5 = tx4 + n2;
                                                       ctx1 = ctx\<lparr>apdu_buf := b6,
                                                                  apdu := (apdu ctx)
                                                                    \<lparr>tx_buf := take tx5 b6,
                                                                     rx_buf := drop tx5 b6,
                                                                     rx_len := length (apdu_buf ctx) - tx5\<rparr>\<rparr>
                                                   in case cmds_submit_apdu lo ctx1 data of
                                                        Inl f \<Rightarrow> Inl f
                                                      | Inr (result_code, ctx2, data2) \<Rightarrow>
                                                          (let ctx3 = ctx2\<lparr>apdu_buf :=
                                                                 received_into b6 tx5 (rx_buf (apdu ctx2))\<rparr>
                                                           in if result_code \<noteq> OPTIGA_STATUS_CODE_SUCCESS
                                                              then Inr (- EIO, ctx3, data2)
                                                              else if \<not> rx_len (apdu ctx3) \<ge> 4
                                                                then Inl Assert_failed
                                                              else
                                                                (case cmds_get_apdu_header (rx_buf (apdu ctx3)) of
                                                                   (_, sta, out_len) \<Rightarrow>
                                                                     if \<not> sta = 0x00 then Inl Assert_failed
                                                                     else if \<not> out_len = 0 then Inl Assert_failed
                                                                     else Inr (0, ctx3, data2)))))))))))"

subsection \<open>Physical layer: the two-phase register read\<close>

text \<open>
  Modelled from the spec: the bus driver's \<^verbatim>\<open>i2c_write\<close> and \<^verbatim>\<open>i2c_read\<close> and the
  kernel's \<^verbatim>\<open>k_sleep\<close>, which are not among the sources: byte-level two-wire write and
  read with an explicit outcome (0 for an acknowledged transfer), and a sleep of so many
  milliseconds. A bus is its answers:
  \<open>answers w k\<close> is the return code of the \<open>k\<close>-th transfer on it, with the bytes that
  a read leaves in the caller's buffer. \<open>transfers\<close> counts the transfers made so far and
  \<open>trace\<close> records every transfer and every sleep in the order of the calls.
\<close>

datatype bus_event = I2C_write "u8 list" u16 | I2C_read nat u16 | K_sleep nat

record bus =
  answers :: "nat \<Rightarrow> int \<times> u8 list"
  transfers :: nat
  trace :: "bus_event list"

definition i2c_write :: "u8 list \<Rightarrow> u16 \<Rightarrow> bus \<Rightarrow> int \<times> bus" where
  "i2c_write buf addr w =
     (fst (answers w (transfers w)),
      w\<lparr>transfers := transfers w + 1, trace := trace w @ [I2C_write buf addr]\<rparr>)"

definition i2c_read :: "nat \<Rightarrow> u16 \<Rightarrow> bus \<Rightarrow> (int \<times> u8 list) \<times> bus" where
  "i2c_read len addr w =
     (answers w (transfers w),
      w\<lparr>transfers := transfers w + 1, trace := trace w @ [I2C_read len addr]\<rparr>)"

definition k_sleep :: "nat \<Rightarrow> bus \<Rightarrow> bus" where
  "k_sleep ms w = w\<lparr>trace := trace w @ [K_sleep ms]\<rparr>"

text \<open>
  The first loop of \<^verbatim>\<open>optiga_reg_read\<close>, from the value \<open>i\<close> of its counter on: the
  result is \<^verbatim>\<open>acked\<close>, \<^verbatim>\<open>res\<close> and \<^verbatim>\<open>i\<close> after the loop.
\<close>

function select_loop :: "u16 \<Rightarrow> u8 \<Rightarrow> nat \<Rightarrow> int \<Rightarrow> bus \<Rightarrow> bool \<times> int \<times> nat \<times> bus" where
  "select_loop i2c_addr addr i res w =
     (if i < 5 then
        (case i2c_write [addr] i2c_addr w of
           (res1, w1) \<Rightarrow>
             if res1 = 0 then (True, res1, i, w1)
             else select_loop i2c_addr addr (i + 1) res1 (k_sleep 10 w1))
      else (False, res, i, w))"
  by pat_completeness auto
termination
  by (relation "measure (\<lambda>(i2c_addr, addr, i, res, w). 5 - i)") auto

text \<open>The second loop; \<open>buf\<close> is the caller's buffer \<^verbatim>\<open>data\<close>.\<close>

function read_loop ::
  "u16 \<Rightarrow> nat \<Rightarrow> nat \<Rightarrow> int \<Rightarrow> u8 list \<Rightarrow> bus \<Rightarrow> bool \<times> int \<times> nat \<times> u8 list \<times> bus" where
  "read_loop i2c_addr len i res buf w =
     (if i < 5 then
        (case i2c_read len i2c_addr w of
           ((res1, buf1), w1) \<Rightarrow>
             if res1 = 0 then (True, res1, i, buf1, w1)
             else read_loop i2c_addr len (i + 1) res1 buf1 (k_sleep 10 w1))
      else (False, res, i, buf, w))"
  by pat_completeness auto
termination
  by (relation "measure (\<lambda>(i2c_addr, len, i, res, buf, w). 5 - i)") auto

text \<open>
  \<open>optiga_reg_read i2c_addr addr buf len w\<close>, with \<open>i2c_addr\<close> the configured address of
  the peer: the return code, the caller's buffer and the bus afterwards.
\<close>

definition optiga_reg_read :: "u16 \<Rightarrow> u8 \<Rightarrow> u8 list \<Rightarrow> nat \<Rightarrow> bus \<Rightarrow> int \<times> u8 list \<times> bus" where
  "optiga_reg_read i2c_addr addr buf len w =
     (case select_loop i2c_addr addr 0 0 w of
        (acked, res, i, w1) \<Rightarrow>
          if \<not> acked then (- EIO, buf, w1)
          else
            (case read_loop i2c_addr len 0 res buf w1 of
               (acked2, res2, i2, buf2, w2) \<Rightarrow>
                 if \<not> acked2 then (- EIO, buf2, w2)
                 else (res2, buf2, w2)))"

subsection \<open>A scripted element\<close>

text \<open>
  A stand-in for the layers below the dispatcher, to run the model on concrete traffic:
  every initialisation succeeds and is counted, every APDU sent is recorded, and every
  receive takes the next scripted reply (an error code with the bytes delivered). A
  receive fails with \<^verbatim>\<open>-EIO\<close> when the script is used up, and also when the scripted
  reply is a success without a single byte: no APDU is empty.
\<close>

record element =
  inits :: nat
  sent :: "u8 list list"
  replies :: "(int \<times> u8 list) list"

definition scripted :: "element lower" where
  "scripted =
     \<lparr>optiga_phy_init = (\<lambda>d. (0, d\<lparr>inits := inits d + 1\<rparr>)),
      optiga_data_init = (\<lambda>d. (0, d\<lparr>inits := inits d + 1\<rparr>)),
      optiga_nettran_init = (\<lambda>d. (0, d\<lparr>inits := inits d + 1\<rparr>)),
      optiga_nettran_send_apdu = (\<lambda>tx d. (0, d\<lparr>sent := sent d @ [tx]\<rparr>)),
      optiga_nettran_recv_apdu =
        (\<lambda>cap d. case replies d of
                    [] \<Rightarrow> ((- EIO, []), d)
                  | r # rs \<Rightarrow>
                      if r = (0, []) then ((- EIO, []), d\<lparr>replies := rs\<rparr>)
                      else (r, d\<lparr>replies := rs\<rparr>))\<rparr>"

text \<open>
  A stand-in for the signature encoder that honours the capacity it is given: two DER
  integers of \<open>rs_len\<close> bytes each, or failure when they do not fit into \<open>cap\<close> bytes.
\<close>

definition bounded_encoder :: "u8 list \<Rightarrow> u8 list \<Rightarrow> nat \<Rightarrow> nat \<Rightarrow> u8 list option" where
  "bounded_encoder r s rs_len cap =
     (let out = [0x02, of_nat rs_len] @ r @ [0x02, of_nat rs_len] @ s
      in if length out \<le> cap then Some out else None)"

text \<open>
  What is to be seen of a call of \<open>optrust_data_get\<close> on the scripted element: the return
  code, the caller's buffer and length, the APDU buffer of the context, the APDUs that
  went out to the element, and the signals raised, each with the address of its
  descriptor.
\<close>

fun seen ::
  "fault + (int \<times> u8 list \<times> nat \<times> optrust_ctx \<times> element optiga_data) \<Rightarrow>
     fault + (int \<times> u8 list \<times> nat \<times> u8 list \<times> u8 list list \<times> (nat \<times> bool \<times> int) list)" where
  "seen (Inl f) = Inl f"
| "seen (Inr (r, buf, len, ctx, data)) =
     Inr (r, buf, len, apdu_buf ctx, sent (device data),
          map (\<lambda>x. (apdu_addr x, finished x)) (raised data))"

section \<open>Properties\<close>

declare optiga_worker.simps [simp del]

subsection \<open>Reset and the error-code exchange\<close>

text \<open>
  C6. \<open>optiga_reset\<close> runs PHY init, data-link init and nettran init in this order, each
  on the device state its predecessor left; the first step that fails ends the sequence
  with its own error code and nothing after it is run. Then the fixed 20-byte
  OpenApplication APDU is sent and a response of at most 4 bytes received. When both
  succeed, the result is 0 if and only if the response is exactly the four bytes
  \<open>00 00 00 00\<close>, and \<^verbatim>\<open>-EIO\<close> for every other response.
\<close>

theorem optiga_reset_sequence:
  assumes "optiga_phy_init lo dev = (e1, d1)"
    and "optiga_data_init lo d1 = (e2, d2)"
    and "optiga_nettran_init lo d2 = (e3, d3)"
    and "optiga_nettran_send_apdu lo
           [0xF0, 0x00, 0x00, 0x10, 0xD2, 0x76, 0x00, 0x00, 0x04, 0x47,
            0x65, 0x6E, 0x41, 0x75, 0x74, 0x68, 0x41, 0x70, 0x70, 0x6C] d3 = (e4, d4)"
    and "optiga_nettran_recv_apdu lo 4 d4 = ((e5, rx), d5)"
  shows "optiga_reset lo dev =
           (if e1 \<noteq> 0 then (e1, d1)
            else if e2 \<noteq> 0 then (e2, d2)
            else if e3 \<noteq> 0 then (e3, d3)
            else if e4 \<noteq> 0 then (e4, d4)
            else if e5 \<noteq> 0 then (e5, d5)
            else if rx = [0, 0, 0, 0] then (0, d5)
            else (- EIO, d5))"
proof -
  have four: "replicate 4 (0 :: u8) = [0, 0, 0, 0]"
    by (simp add: numeral_eq_Suc)
  have "take 4 rx = rx" if "length rx = 4"
    using that by simp
  then show ?thesis
    using assms
    by (auto simp: optiga_reset_def optiga_open_application_def optiga_open_application_apdu_def
          OPTIGA_OPEN_APPLICATION_RESPONSE_LEN_def four Let_def)
qed

theorem optiga_reset_sequence_witness:
  "optiga_reset scripted \<lparr>inits = 0, sent = [], replies = [(0, [0, 0, 0, 0])]\<rparr>
     = (0, \<lparr>inits = 3,
            sent = [[0xF0, 0x00, 0x00, 0x10, 0xD2, 0x76, 0x00, 0x00, 0x04, 0x47,
                     0x65, 0x6E, 0x41, 0x75, 0x74, 0x68, 0x41, 0x70, 0x70, 0x6C]],
            replies = []\<rparr>)
   \<and> fst (optiga_reset scripted \<lparr>inits = 0, sent = [], replies = [(0, [0, 0, 0, 1])]\<rparr>) = - EIO"
proof -
  let ?oa = "[0xF0, 0x00, 0x00, 0x10, 0xD2, 0x76, 0x00, 0x00, 0x04, 0x47,
              0x65, 0x6E, 0x41, 0x75, 0x74, 0x68, 0x41, 0x70, 0x70, 0x6C] :: u8 list"
  have "optiga_reset scripted \<lparr>inits = 0, sent = [], replies = [(0, rx)]\<rparr>
          = (if rx = [0, 0, 0, 0] then (0, \<lparr>inits = 3, sent = [?oa], replies = []\<rparr>)
             else (- EIO, \<lparr>inits = 3, sent = [?oa], replies = []\<rparr>))"
    if "rx \<noteq> []" for rx
    using that
      optiga_reset_sequence [of scripted "\<lparr>inits = 0, sent = [], replies = [(0, rx)]\<rparr>"
        0 "\<lparr>inits = 1, sent = [], replies = [(0, rx)]\<rparr>"
        0 "\<lparr>inits = 2, sent = [], replies = [(0, rx)]\<rparr>"
        0 "\<lparr>inits = 3, sent = [], replies = [(0, rx)]\<rparr>"
        0 "\<lparr>inits = 3, sent = [?oa], replies = [(0, rx)]\<rparr>"
        0 rx "\<lparr>inits = 3, sent = [?oa], replies = []\<rparr>"]
    by (simp add: scripted_def)
  from this [of "[0, 0, 0, 0]"] this [of "[0, 0, 0, 1]"] show ?thesis
    by simp
qed

text \<open>
  C7. \<open>optiga_get_error_code\<close> sends the fixed 10-byte GetDataObject APDU for the object
  \<open>F1C2\<close> and receives at most 5 bytes. A failure of the send or of the receive is
  passed on and the output byte stays as it was. Otherwise the result is 0, with the
  output byte set to byte 4 of the response, if and only if the response has exactly 5
  bytes, byte 0 is \<open>00\<close> and bytes 2 and 3 are \<open>00 01\<close>; every other response gives
  \<^verbatim>\<open>-EIO\<close> and leaves the output byte as it was.
\<close>

theorem optiga_get_error_code_response:
  assumes "optiga_nettran_send_apdu lo
             [0x01, 0x00, 0x00, 0x06, 0xF1, 0xC2, 0x00, 0x00, 0x00, 0x01] dev = (e1, d1)"
    and "optiga_nettran_recv_apdu lo 5 d1 = ((e2, rx), d2)"
  shows "optiga_get_error_code lo err_code dev =
           (if e1 \<noteq> 0 then (e1, err_code, d1)
            else if e2 \<noteq> 0 then (e2, err_code, d2)
            else if length rx = 5 \<and> rx ! 0 = 0x00 \<and> rx ! 2 = 0x00 \<and> rx ! 3 = 0x01
              then (0, rx ! 4, d2)
            else (- EIO, err_code, d2))"
  using assms
  by (auto simp: optiga_get_error_code_def error_code_apdu_def OPTIGA_GET_ERROR_RESPONSE_LEN_def)

theorem optiga_get_error_code_response_witness:
  "optiga_get_error_code scripted 0
     \<lparr>inits = 0, sent = [], replies = [(0, [0x00, 0x00, 0x00, 0x01, 0x07])]\<rparr>
     = (0, 0x07,
        \<lparr>inits = 0, sent = [[0x01, 0x00, 0x00, 0x06, 0xF1, 0xC2, 0x00, 0x00, 0x00, 0x01]],
         replies = []\<rparr>)
   \<and> optiga_get_error_code scripted 0xAA
     \<lparr>inits = 0, sent = [], replies = [(0, [0x00, 0x00, 0x00, 0x02, 0x07])]\<rparr>
     = (- EIO, 0xAA,
        \<lparr>inits = 0, sent = [[0x01, 0x00, 0x00, 0x06, 0xF1, 0xC2, 0x00, 0x00, 0x00, 0x01]],
         replies = []\<rparr>)"
proof -
  let ?ec = "[0x01, 0x00, 0x00, 0x06, 0xF1, 0xC2, 0x00, 0x00, 0x00, 0x01] :: u8 list"
  have "optiga_get_error_code scripted old \<lparr>inits = 0, sent = [], replies = [(0, rx)]\<rparr>
          = (if length rx = 5 \<and> rx ! 0 = 0x00 \<and> rx ! 2 = 0x00 \<and> rx ! 3 = 0x01
             then (0, rx ! 4, \<lparr>inits = 0, sent = [?ec], replies = []\<rparr>)
             else (- EIO, old, \<lparr>inits = 0, sent = [?ec], replies = []\<rparr>))"
    if "rx \<noteq> []" for rx old
    using that
      optiga_get_error_code_response [of scripted "\<lparr>inits = 0, sent = [], replies = [(0, rx)]\<rparr>"
        0 "\<lparr>inits = 0, sent = [?ec], replies = [(0, rx)]\<rparr>"
        0 rx "\<lparr>inits = 0, sent = [?ec], replies = []\<rparr>" old]
    by (simp add: scripted_def)
  from this [of "[0x00, 0x00, 0x00, 0x01, 0x07]" 0] this [of "[0x00, 0x00, 0x00, 0x02, 0x07]" "0xAA"]
  show ?thesis
    by simp
qed

subsection \<open>The worker loop\<close>

lemma invalidate_queue_eq:
  "invalidate_queue a q d =
     d\<lparr>raised := raised d @ map (\<lambda>x. x\<lparr>finished := (True, - EIO)\<rparr>) (a # q), apdu_queue := []\<rparr>"
  by (induction a q d rule: invalidate_queue.induct) (simp_all add: k_poll_signal_raise_def)

lemma transfer_keeps_addr:
  "optiga_transfer_apdu lo a dev = (err, a1, dev1) \<Longrightarrow> apdu_addr a1 = apdu_addr a"
  by (auto simp: optiga_transfer_apdu_def split: prod.splits if_splits)

lemma transfer_nonempty:
  "nonempty_responses lo \<Longrightarrow> optiga_transfer_apdu lo a dev = (0, a1, dev1) \<Longrightarrow> rx_len a1 > 0"
  unfolding optiga_transfer_apdu_def nonempty_responses_def
  by (fastforce split: prod.splits if_splits)

lemma scripted_nonempty: "nonempty_responses scripted"
  by (auto simp: nonempty_responses_def scripted_def EIO_def split: list.splits if_splits)

text \<open>
  One pass through the loop takes one descriptor and raises one signal for every
  descriptor it consumes: the in-flight one, and with it the pending ones when the
  queue is invalidated.
\<close>

lemma iteration_raises_consumed:
  assumes "worker_iteration lo a d = Inr d'"
  shows "\<exists>new. raised d' = raised d @ new \<and>
           map apdu_addr new @ map apdu_addr (apdu_queue d') = apdu_addr a # map apdu_addr (apdu_queue d)"
  using assms
  by (auto simp: worker_iteration_def invalidate_queue_eq k_poll_signal_raise_def Let_def o_def
        split: if_splits prod.splits dest: transfer_keeps_addr)

lemma iteration_no_fault:
  assumes "nonempty_responses lo"
  shows "\<exists>d'. worker_iteration lo a d = Inr d'"
  using assms
  by (auto simp: worker_iteration_def Let_def split: if_splits prod.splits dest: transfer_nonempty)

lemma worker_run:
  assumes "nonempty_responses lo"
  shows "\<exists>d'. optiga_worker lo d = Inr d' \<and> apdu_queue d' = [] \<and>
           (\<exists>new. raised d' = raised d @ new \<and> map apdu_addr new = map apdu_addr (apdu_queue d))"
  using assms
proof (induction lo d rule: optiga_worker.induct)
  case (1 lo d)
  note ne = "1.prems"
  show ?case
  proof (cases "apdu_queue d")
    case Nil
    then show ?thesis by (subst optiga_worker.simps) simp
  next
    case (Cons a q)
    from iteration_no_fault [OF ne] obtain d1 where
      it: "worker_iteration lo a (d\<lparr>apdu_queue := q\<rparr>) = Inr d1" by blast
    from iteration_raises_consumed [OF it] obtain new1 where
      n1: "raised d1 = raised d @ new1"
        "map apdu_addr new1 @ map apdu_addr (apdu_queue d1) = apdu_addr a # map apdu_addr q"
      by auto
    from "1.IH" [OF Cons it ne] obtain d' new2 where
      r: "optiga_worker lo d1 = Inr d'" "apdu_queue d' = []"
        "raised d' = raised d1 @ new2" "map apdu_addr new2 = map apdu_addr (apdu_queue d1)"
      by blast
    have "optiga_worker lo d = Inr d'"
      using Cons it r(1) by (subst optiga_worker.simps) simp
    moreover have "raised d' = raised d @ (new1 @ new2)"
      using n1(1) r(3) by simp
    moreover have "map apdu_addr (new1 @ new2) = map apdu_addr (apdu_queue d)"
      using n1(2) r(4) Cons by simp
    ultimately show ?thesis using r(2) by blast
  qed
qed

lemma distinct_key_once:
  "distinct ks \<Longrightarrow> k \<in> set ks \<Longrightarrow> length (filter (\<lambda>j. j = k) ks) = 1"
  by (induction ks) (auto simp: filter_empty_conv)

text \<open>
  C1. Submit a descriptor \<open>a\<close> in any state \<open>d\<close> of the driver and let the worker run
  until it waits on the empty queue. Provided the transport never reports success with an
  empty response (which the worker asserts), the worker gets there, and the signals it
  has raised on the way are those of the descriptors that were pending followed by that
  of \<open>a\<close>, one raise for each, in the order of submission. When the descriptors are
  distinct objects, the signal of each of them has been raised exactly once.
\<close>

theorem completion_signal_raised_once:
  assumes "nonempty_responses lo"
  shows "\<exists>d' new. optiga_worker lo (snd (enqueue_apdu a d)) = Inr d' \<and> apdu_queue d' = [] \<and>
           raised d' = raised d @ new \<and>
           map apdu_addr new = map apdu_addr (apdu_queue d @ [a]) \<and>
           (distinct (map apdu_addr (apdu_queue d @ [a])) \<longrightarrow>
              (\<forall>x \<in> set (apdu_queue d @ [a]).
                 length (filter (\<lambda>y. apdu_addr y = apdu_addr x) new) = 1))"
proof -
  let ?d0 = "snd (enqueue_apdu a d)"
  have q: "map apdu_addr (apdu_queue ?d0) = map apdu_addr (apdu_queue d @ [a])"
    and r: "raised ?d0 = raised d"
    by (simp_all add: enqueue_apdu_def k_poll_signal_init_def)
  from worker_run [OF assms, of ?d0] obtain d' new where
    run: "optiga_worker lo ?d0 = Inr d'" "apdu_queue d' = []" "raised d' = raised d @ new"
      "map apdu_addr new = map apdu_addr (apdu_queue d @ [a])"
    unfolding q r by blast
  have once: "length (filter (\<lambda>y. apdu_addr y = apdu_addr x) new) = 1"
    if dist: "distinct (map apdu_addr (apdu_queue d @ [a]))" and x: "x \<in> set (apdu_queue d @ [a])"
    for x
  proof -
    have "length (filter (\<lambda>y. apdu_addr y = apdu_addr x) new)
            = length (filter (\<lambda>k. k = apdu_addr x) (map apdu_addr new))"
      by (simp add: filter_map o_def)
    also have "\<dots> = length (filter (\<lambda>k. k = apdu_addr x) (map apdu_addr (apdu_queue d @ [a])))"
      unfolding run(4) ..
    also have "\<dots> = 1"
      using dist x by (intro distinct_key_once) (auto simp del: map_append)
    finally show ?thesis .
  qed
  from run once show ?thesis by blast
qed

theorem completion_signal_raised_once_witness:
  "nonempty_responses scripted \<and>
   (\<exists>d'. optiga_worker scripted
            (snd (enqueue_apdu
                    \<lparr>apdu_addr = 32, tx_buf = [0x81, 0x00, 0x00, 0x02, 0xE0, 0xC2], rx_buf = [],
                     rx_len = 64, finished = (False, 0)\<rparr>
                    \<lparr>reset_counter = 0,
                     apdu_queue = [\<lparr>apdu_addr = 16, tx_buf = [0x81, 0x00, 0x00, 0x02, 0xE0, 0xC0],
                                    rx_buf = [], rx_len = 64, finished = (False, 0)\<rparr>],
                     device = \<lparr>inits = 0, sent = [], replies = [(0, [0, 0, 0, 0])]\<rparr>,
                     raised = []\<rparr>)) = Inr d'
          \<and> apdu_queue d' = [] \<and> map apdu_addr (raised d') = [16, 32]
          \<and> length (filter (\<lambda>y. apdu_addr y = 32) (raised d')) = 1)"
  using scripted_nonempty
    completion_signal_raised_once [OF scripted_nonempty,
      of "\<lparr>apdu_addr = 32, tx_buf = [0x81, 0x00, 0x00, 0x02, 0xE0, 0xC2], rx_buf = [],
           rx_len = 64, finished = (False, 0)\<rparr>"
         "\<lparr>reset_counter = 0,
           apdu_queue = [\<lparr>apdu_addr = 16, tx_buf = [0x81, 0x00, 0x00, 0x02, 0xE0, 0xC0],
                          rx_buf = [], rx_len = 64, finished = (False, 0)\<rparr>],
           device = \<lparr>inits = 0, sent = [], replies = [(0, [0, 0, 0, 0])]\<rparr>,
           raised = []\<rparr>"]
  by auto

text \<open>
  C2. When the round-trip of the in-flight descriptor fails at the transport level (and
  the core is not dead), the pass through the loop increments the reset counter by one,
  runs \<open>optiga_reset\<close> on the device as the failed transfer left it, and raises the
  signal of the in-flight descriptor and then of every pending descriptor with
  \<^verbatim>\<open>-EIO\<close>. The queue is empty afterwards, and the device is exactly as the reset left
  it: nothing is sent for a drained descriptor.
\<close>

theorem transport_failure_drains_queue:
  assumes "\<not> reset_counter d > OPTIGA_MAX_RESET"
    and "optiga_transfer_apdu lo a (device d) = (err, a1, dev1)"
    and "err \<noteq> 0"
  shows "worker_iteration lo a d =
           Inr (d\<lparr>reset_counter := reset_counter d + 1,
                  device := snd (optiga_reset lo dev1),
                  raised := raised d @ map (\<lambda>x. x\<lparr>finished := (True, - EIO)\<rparr>) (a1 # apdu_queue d),
                  apdu_queue := []\<rparr>)"
  using assms
  by (simp add: worker_iteration_def invalidate_queue_eq Let_def split: prod.splits)

theorem transport_failure_drains_queue_witness:
  "worker_iteration scripted
     \<lparr>apdu_addr = 16, tx_buf = [0x81, 0x00, 0x00, 0x02, 0xE0, 0xC2], rx_buf = [],
      rx_len = 64, finished = (False, 0)\<rparr>
     \<lparr>reset_counter = 0,
      apdu_queue = [\<lparr>apdu_addr = 32, tx_buf = [0x81, 0x00, 0x00, 0x02, 0xE0, 0xC0],
                     rx_buf = [], rx_len = 64, finished = (False, 0)\<rparr>],
      device = \<lparr>inits = 0, sent = [], replies = [(- 5, []), (0, [0, 0, 0, 0])]\<rparr>,
      raised = []\<rparr>
   = Inr \<lparr>reset_counter = 1, apdu_queue = [],
          device = \<lparr>inits = 3,
                    sent = [[0x81, 0x00, 0x00, 0x02, 0xE0, 0xC2],
                            [0xF0, 0x00, 0x00, 0x10, 0xD2, 0x76, 0x00, 0x00, 0x04, 0x47,
                             0x65, 0x6E, 0x41, 0x75, 0x74, 0x68, 0x41, 0x70, 0x70, 0x6C]],
                    replies = []\<rparr>,
          raised = [\<lparr>apdu_addr = 16, tx_buf = [0x81, 0x00, 0x00, 0x02, 0xE0, 0xC2], rx_buf = [],
                     rx_len = 0, finished = (True, - 5)\<rparr>,
                    \<lparr>apdu_addr = 32, tx_buf = [0x81, 0x00, 0x00, 0x02, 0xE0, 0xC0], rx_buf = [],
                     rx_len = 64, finished = (True, - 5)\<rparr>]\<rparr>"
proof -
  let ?a = "\<lparr>apdu_addr = 16, tx_buf = [0x81, 0x00, 0x00, 0x02, 0xE0, 0xC2] :: u8 list, rx_buf = [],
             rx_len = 64, finished = (False, 0 :: int)\<rparr>"
  let ?dev = "\<lparr>inits = 0, sent = [], replies = [(- 5, []), (0, [0, 0, 0, 0 :: u8])]\<rparr>"
  let ?dev1 = "\<lparr>inits = 0, sent = [[0x81, 0x00, 0x00, 0x02, 0xE0, 0xC2 :: u8]],
                replies = [(0 :: int, [0, 0, 0, 0 :: u8])]\<rparr>"
  have t: "optiga_transfer_apdu scripted ?a ?dev = (- 5, ?a\<lparr>rx_buf := [], rx_len := 0\<rparr>, ?dev1)"
    by (simp add: optiga_transfer_apdu_def scripted_def)
  have r: "optiga_reset scripted ?dev1
             = (0, \<lparr>inits = 3,
                    sent = [[0x81, 0x00, 0x00, 0x02, 0xE0, 0xC2],
                            [0xF0, 0x00, 0x00, 0x10, 0xD2, 0x76, 0x00, 0x00, 0x04, 0x47,
                             0x65, 0x6E, 0x41, 0x75, 0x74, 0x68, 0x41, 0x70, 0x70, 0x6C]],
                    replies = []\<rparr>)"
    by (simp add: optiga_reset_def optiga_open_application_def optiga_open_application_apdu_def
          OPTIGA_OPEN_APPLICATION_RESPONSE_LEN_def scripted_def numeral_eq_Suc)
  show ?thesis
    using transport_failure_drains_queue [where lo = scripted and a = ?a and err = "- 5"
        and ?a1.0 = "?a\<lparr>rx_buf := [], rx_len := 0\<rparr>" and ?dev1.0 = ?dev1
        and d = "\<lparr>reset_counter = 0,
                  apdu_queue = [\<lparr>apdu_addr = 32, tx_buf = [0x81, 0x00, 0x00, 0x02, 0xE0, 0xC0],
                                 rx_buf = [], rx_len = 64, finished = (False, 0)\<rparr>],
                  device = ?dev, raised = []\<rparr>"]
    by (simp add: t r OPTIGA_MAX_RESET_def EIO_def)
qed

lemma dead_iteration:
  "reset_counter d > OPTIGA_MAX_RESET \<Longrightarrow>
     worker_iteration lo a d = Inr (k_poll_signal_raise a (- EIO) d)"
  by (simp add: worker_iteration_def)

lemma dead_stays_dead:
  assumes "later lo d d'" and "reset_counter d > OPTIGA_MAX_RESET"
  shows "reset_counter d' = reset_counter d \<and> device d' = device d \<and>
           (\<exists>new. raised d' = raised d @ new \<and> (\<forall>x \<in> set new. finished x = (True, - EIO)))"
  using assms
proof (induction rule: later.induct)
  case now
  then show ?case by simp
next
  case (submit d1 a)
  then show ?case by (simp add: enqueue_apdu_def)
next
  case (serve d1 a q d2)
  then have dead: "reset_counter (d1\<lparr>apdu_queue := q\<rparr>) > OPTIGA_MAX_RESET"
    by simp
  from serve.hyps(3) have "d2 = k_poll_signal_raise a (- EIO) (d1\<lparr>apdu_queue := q\<rparr>)"
    unfolding dead_iteration [OF dead] by simp
  with serve show ?case
    by (auto simp: k_poll_signal_raise_def)
qed

text \<open>
  C3. Once the reset counter exceeds \<open>OPTIGA_MAX_RESET = 3\<close> the core is dead for good.
  In every state that submissions and passes of the worker can lead to from there, the
  counter and the device are what they were (no lower-layer function has been called),
  every signal raised in between carries \<^verbatim>\<open>-EIO\<close>, and the next pass of the worker
  does nothing but raise the signal of the descriptor it takes with \<^verbatim>\<open>-EIO\<close>.
\<close>

theorem dead_state_absorbing:
  assumes "reset_counter d > OPTIGA_MAX_RESET"
    and "later lo d d'"
  shows "reset_counter d' = reset_counter d \<and> device d' = device d \<and>
         (\<exists>new. raised d' = raised d @ new \<and> (\<forall>x \<in> set new. finished x = (True, - EIO))) \<and>
         worker_iteration lo a d' = Inr (d'\<lparr>raised := raised d' @ [a\<lparr>finished := (True, - EIO)\<rparr>]\<rparr>)"
proof -
  note keep = dead_stays_dead [OF assms(2) assms(1)]
  then have "reset_counter d' > OPTIGA_MAX_RESET"
    using assms(1) by simp
  from dead_iteration [OF this] keep show ?thesis
    by (simp add: k_poll_signal_raise_def)
qed

theorem dead_state_absorbing_witness:
  "worker_iteration scripted
     \<lparr>apdu_addr = 32, tx_buf = [0x81, 0x00, 0x00, 0x02, 0xE0, 0xC2], rx_buf = [],
      rx_len = 64, finished = (False, 0)\<rparr>
     \<lparr>reset_counter = 4, apdu_queue = [],
      device = \<lparr>inits = 0, sent = [], replies = [(0, [0, 0, 0, 0])]\<rparr>,
      raised = [\<lparr>apdu_addr = 16, tx_buf = [0x81, 0x00, 0x00, 0x02, 0xE0, 0xC0], rx_buf = [],
                 rx_len = 64, finished = (True, - 5)\<rparr>]\<rparr>
   = Inr \<lparr>reset_counter = 4, apdu_queue = [],
          device = \<lparr>inits = 0, sent = [], replies = [(0, [0, 0, 0, 0])]\<rparr>,
          raised = [\<lparr>apdu_addr = 16, tx_buf = [0x81, 0x00, 0x00, 0x02, 0xE0, 0xC0], rx_buf = [],
                     rx_len = 64, finished = (True, - 5)\<rparr>,
                    \<lparr>apdu_addr = 32, tx_buf = [0x81, 0x00, 0x00, 0x02, 0xE0, 0xC2], rx_buf = [],
                     rx_len = 64, finished = (True, - 5)\<rparr>]\<rparr>"
proof -
  let ?b = "\<lparr>apdu_addr = 16, tx_buf = [0x81, 0x00, 0x00, 0x02, 0xE0, 0xC0] :: u8 list, rx_buf = [],
             rx_len = 64, finished = (False, 0 :: int)\<rparr>"
  let ?d = "\<lparr>reset_counter = 4, apdu_queue = [],
             device = \<lparr>inits = 0, sent = [], replies = [(0 :: int, [0, 0, 0, 0 :: u8])]\<rparr>,
             raised = []\<rparr>"
  let ?d1 = "?d\<lparr>apdu_queue := [?b]\<rparr>"
  let ?d2 = "?d\<lparr>raised := [?b\<lparr>finished := (True, - 5)\<rparr>]\<rparr>"
  have dead: "reset_counter ?d > OPTIGA_MAX_RESET"
    by (simp add: OPTIGA_MAX_RESET_def)
  have "later scripted ?d (snd (enqueue_apdu ?b ?d))"
    by (rule later.submit) (rule later.now)
  then have l1: "later scripted ?d ?d1"
    by (simp add: enqueue_apdu_def k_poll_signal_init_def)
  have wi: "worker_iteration scripted ?b (?d1\<lparr>apdu_queue := []\<rparr>) = Inr ?d2"
    by (simp add: worker_iteration_def OPTIGA_MAX_RESET_def k_poll_signal_raise_def EIO_def)
  have l2: "later scripted ?d ?d2"
    by (rule later.serve [OF l1 _ wi]) simp
  from dead_state_absorbing [OF dead l2,
      of "\<lparr>apdu_addr = 32, tx_buf = [0x81, 0x00, 0x00, 0x02, 0xE0, 0xC2], rx_buf = [],
           rx_len = 64, finished = (False, 0)\<rparr>"]
  show ?thesis
    by (simp add: EIO_def)
qed

text \<open>
  C4, at the input where it fails. The round-trip succeeds and byte 0 of the response is
  \<open>07\<close>: the element reports a command-level error. The worker sends the GetErrorCode
  APDU, the element answers \<open>00 00 00 01 00\<close> (error byte \<open>00\<close>), and the worker raises
  the signal with that byte: the published outcome is 0, the code for success, although
  byte 0 of the response is not 0.
\<close>

theorem command_error_published_as_success:
  "worker_iteration scripted
     \<lparr>apdu_addr = 16, tx_buf = [0x81, 0x00, 0x00, 0x02, 0xE0, 0xC2], rx_buf = [],
      rx_len = 64, finished = (False, 0)\<rparr>
     \<lparr>reset_counter = 0, apdu_queue = [],
      device = \<lparr>inits = 0, sent = [],
                replies = [(0, [0x07, 0x00, 0x00, 0x00]), (0, [0x00, 0x00, 0x00, 0x01, 0x00])]\<rparr>,
      raised = []\<rparr>
   = Inr \<lparr>reset_counter = 0, apdu_queue = [],
          device = \<lparr>inits = 0,
                    sent = [[0x81, 0x00, 0x00, 0x02, 0xE0, 0xC2],
                            [0x01, 0x00, 0x00, 0x06, 0xF1, 0xC2, 0x00, 0x00, 0x00, 0x01]],
                    replies = []\<rparr>,
          raised = [\<lparr>apdu_addr = 16, tx_buf = [0x81, 0x00, 0x00, 0x02, 0xE0, 0xC2],
                     rx_buf = [0x07, 0x00, 0x00, 0x00], rx_len = 4,
                     finished = (True, OPTIGA_STATUS_CODE_SUCCESS)\<rparr>]\<rparr>"
  by (simp add: worker_iteration_def optiga_transfer_apdu_def optiga_get_error_code_def
        optiga_apdu_is_error_def k_poll_signal_raise_def scripted_def error_code_apdu_def
        OPTIGA_MAX_RESET_def OPTIGA_APDU_STA_OFFSET_def OPTIGA_APDU_STA_SUCCESS_def
        OPTIGA_GET_ERROR_RESPONSE_LEN_def OPTIGA_STATUS_CODE_SUCCESS_def)

text \<open>
  What the worker publishes after a successful round-trip with a non-empty response:
  0 when byte 0 of the response is 0; otherwise the result of the error-code exchange
  when that fails, and else the error byte it delivered, a value from 0 to 255.
\<close>

lemma published_outcome:
  assumes "\<not> reset_counter d > OPTIGA_MAX_RESET"
    and "optiga_transfer_apdu lo a (device d) = (0, a1, dev1)"
    and "rx_len a1 > 0"
    and "optiga_get_error_code lo 0 dev1 = (err3, code, dev3)"
  shows "worker_iteration lo a d =
           (if rx_buf a1 ! 0 = 0
            then Inr (d\<lparr>reset_counter := 0, device := dev1,
                        raised := raised d @ [a1\<lparr>finished := (True, 0)\<rparr>]\<rparr>)
            else Inr (d\<lparr>reset_counter := 0, device := dev3,
                        raised := raised d
                          @ [a1\<lparr>finished := (True, if err3 \<noteq> 0 then err3 else uint code)\<rparr>]\<rparr>))"
  using assms
  by (simp add: worker_iteration_def optiga_apdu_is_error_def k_poll_signal_raise_def Let_def
        OPTIGA_APDU_STA_OFFSET_def OPTIGA_APDU_STA_SUCCESS_def OPTIGA_STATUS_CODE_SUCCESS_def)

text \<open>
  C5 as stated fails: with the reset counter at 1, a round-trip that succeeds and whose
  response reports a command-level error (byte 0 is \<open>07\<close>) leaves the counter at 0, not
  unchanged.
\<close>

theorem reset_counter_unchanged_counterexample:
  "worker_iteration scripted
     \<lparr>apdu_addr = 16, tx_buf = [0x81, 0x00, 0x00, 0x02, 0xE0, 0xC2], rx_buf = [],
      rx_len = 64, finished = (False, 0)\<rparr>
     \<lparr>reset_counter = 1, apdu_queue = [],
      device = \<lparr>inits = 0, sent = [],
                replies = [(0, [0x07, 0x00, 0x00, 0x00]), (0, [0x00, 0x00, 0x00, 0x01, 0x07])]\<rparr>,
      raised = []\<rparr>
   = Inr \<lparr>reset_counter = 0, apdu_queue = [],
          device = \<lparr>inits = 0,
                    sent = [[0x81, 0x00, 0x00, 0x02, 0xE0, 0xC2],
                            [0x01, 0x00, 0x00, 0x06, 0xF1, 0xC2, 0x00, 0x00, 0x00, 0x01]],
                    replies = []\<rparr>,
          raised = [\<lparr>apdu_addr = 16, tx_buf = [0x81, 0x00, 0x00, 0x02, 0xE0, 0xC2],
                     rx_buf = [0x07, 0x00, 0x00, 0x00], rx_len = 4,
                     finished = (True, 7)\<rparr>]\<rparr>"
  by (simp add: worker_iteration_def optiga_transfer_apdu_def optiga_get_error_code_def
        optiga_apdu_is_error_def k_poll_signal_raise_def scripted_def error_code_apdu_def
        OPTIGA_MAX_RESET_def OPTIGA_APDU_STA_OFFSET_def OPTIGA_APDU_STA_SUCCESS_def
        OPTIGA_GET_ERROR_RESPONSE_LEN_def)

text \<open>
  C5, amended. A pass of the worker changes the reset counter only as follows: a pass
  of the dead core leaves it as it is; otherwise it is incremented by one when the
  round-trip of the descriptor fails at the transport level, and it is zero after a
  round-trip that succeeds, whatever byte 0 of the response is and whatever becomes of
  the error-code exchange that follows a command-level error.
\<close>

theorem reset_counter_changes:
  assumes "worker_iteration lo a d = Inr d'"
  shows "reset_counter d' =
           (if reset_counter d > OPTIGA_MAX_RESET then reset_counter d
            else if fst (optiga_transfer_apdu lo a (device d)) \<noteq> 0 then reset_counter d + 1
            else 0)"
  using assms
  by (auto simp: worker_iteration_def invalidate_queue_eq k_poll_signal_raise_def Let_def
        split: if_splits prod.splits)

theorem reset_counter_changes_witness:
  "worker_iteration scripted
     \<lparr>apdu_addr = 16, tx_buf = [0x81, 0x00, 0x00, 0x02, 0xE0, 0xC2], rx_buf = [],
      rx_len = 64, finished = (False, 0)\<rparr>
     \<lparr>reset_counter = 2, apdu_queue = [],
      device = \<lparr>inits = 0, sent = [], replies = [(- 5, [])]\<rparr>, raised = []\<rparr>
   = Inr \<lparr>reset_counter = 3, apdu_queue = [],
          device = \<lparr>inits = 3,
                    sent = [[0x81, 0x00, 0x00, 0x02, 0xE0, 0xC2],
                            [0xF0, 0x00, 0x00, 0x10, 0xD2, 0x76, 0x00, 0x00, 0x04, 0x47,
                             0x65, 0x6E, 0x41, 0x75, 0x74, 0x68, 0x41, 0x70, 0x70, 0x6C]],
                    replies = []\<rparr>,
          raised = [\<lparr>apdu_addr = 16, tx_buf = [0x81, 0x00, 0x00, 0x02, 0xE0, 0xC2], rx_buf = [],
                     rx_len = 0, finished = (True, - 5)\<rparr>]\<rparr>
   \<and> (2 :: int) + 1 = 3"
proof -
  let ?a = "\<lparr>apdu_addr = 16, tx_buf = [0x81, 0x00, 0x00, 0x02, 0xE0, 0xC2] :: u8 list, rx_buf = [],
             rx_len = 64, finished = (False, 0 :: int)\<rparr>"
  let ?dev = "\<lparr>inits = 0, sent = [], replies = [(- 5 :: int, [] :: u8 list)]\<rparr>"
  let ?d = "\<lparr>reset_counter = 2, apdu_queue = [], device = ?dev, raised = []\<rparr>"
  let ?d' = "\<lparr>reset_counter = 3, apdu_queue = [],
          device = \<lparr>inits = 3,
                    sent = [[0x81, 0x00, 0x00, 0x02, 0xE0, 0xC2],
                            [0xF0, 0x00, 0x00, 0x10, 0xD2, 0x76, 0x00, 0x00, 0x04, 0x47,
                             0x65, 0x6E, 0x41, 0x75, 0x74, 0x68, 0x41, 0x70, 0x70, 0x6C :: u8]],
                    replies = []\<rparr>,
          raised = [?a\<lparr>rx_len := 0, finished := (True, - 5)\<rparr>]\<rparr>"
  have run: "worker_iteration scripted ?a ?d = Inr ?d'"
    by (simp add: worker_iteration_def optiga_transfer_apdu_def optiga_reset_def
          optiga_open_application_def optiga_open_application_apdu_def
          OPTIGA_OPEN_APPLICATION_RESPONSE_LEN_def k_poll_signal_raise_def scripted_def
          OPTIGA_MAX_RESET_def EIO_def)
  have failed: "fst (optiga_transfer_apdu scripted ?a (device ?d)) \<noteq> 0"
    by (simp add: optiga_transfer_apdu_def scripted_def)
  have alive: "\<not> reset_counter ?d > OPTIGA_MAX_RESET"
    by (simp add: OPTIGA_MAX_RESET_def)
  from reset_counter_changes [OF run] failed alive have "reset_counter ?d' = reset_counter ?d + 1"
    by simp
  with run show ?thesis
    by simp
qed

subsection \<open>The register read\<close>

declare select_loop.simps [simp del] read_loop.simps [simp del]

lemma select_loop_all_nack:
  assumes "i \<le> 5"
    and "\<forall>k < 5 - i. fst (answers w (transfers w + k)) \<noteq> 0"
  shows "\<exists>r. select_loop ia addr i res w =
           (False, r, 5,
            w\<lparr>transfers := transfers w + (5 - i),
              trace := trace w @ concat (replicate (5 - i) [I2C_write [addr] ia, K_sleep 10])\<rparr>)"
  using assms
proof (induction ia addr i res w rule: select_loop.induct)
  case (1 ia addr i res w)
  show ?case
  proof (cases "i < 5")
    case False
    with "1.prems" have "i = 5" by simp
    then show ?thesis by (subst select_loop.simps) simp
  next
    case True
    obtain res1 w1 where w: "i2c_write [addr] ia w = (res1, w1)"
      by (cases "i2c_write [addr] ia w")
    then have res1: "res1 = fst (answers w (transfers w))"
      and w1: "w1 = w\<lparr>transfers := transfers w + 1, trace := trace w @ [I2C_write [addr] ia]\<rparr>"
      by (simp_all add: i2c_write_def)
    from "1.prems"(2) True have nz: "res1 \<noteq> 0"
      unfolding res1 by (metis add.right_neutral zero_less_diff)
    let ?w2 = "k_sleep 10 w1"
    have rest: "\<forall>k < 5 - (i + 1). fst (answers ?w2 (transfers ?w2 + k)) \<noteq> 0"
    proof (intro allI impI)
      fix k assume "k < 5 - (i + 1)"
      then have "k + 1 < 5 - i" by simp
      with "1.prems"(2) have "fst (answers w (transfers w + (k + 1))) \<noteq> 0" by blast
      then show "fst (answers ?w2 (transfers ?w2 + k)) \<noteq> 0"
        by (simp add: w1 k_sleep_def add.commute add.left_commute)
    qed
    have "i + 1 \<le> 5"
      using True by simp
    from "1.IH" [OF True w [symmetric] nz this rest] obtain r where
      "select_loop ia addr (i + 1) res1 ?w2 =
         (False, r, 5,
          ?w2\<lparr>transfers := transfers ?w2 + (5 - (i + 1)),
               trace := trace ?w2 @ concat (replicate (5 - (i + 1)) [I2C_write [addr] ia, K_sleep 10])\<rparr>)"
      by auto
    moreover have "5 - i = Suc (5 - (i + 1))"
      using True by simp
    ultimately show ?thesis
      using True w nz by (subst select_loop.simps) (simp add: w1 k_sleep_def)
  qed
qed

lemma select_loop_ack:
  assumes "i + m < 5"
    and "\<forall>k < m. fst (answers w (transfers w + k)) \<noteq> 0"
    and "fst (answers w (transfers w + m)) = 0"
  shows "select_loop ia addr i res w =
           (True, 0, i + m,
            w\<lparr>transfers := transfers w + m + 1,
              trace := trace w @ concat (replicate m [I2C_write [addr] ia, K_sleep 10])
                         @ [I2C_write [addr] ia]\<rparr>)"
  using assms
proof (induction m arbitrary: i res w)
  case 0
  then show ?case by (subst select_loop.simps) (simp add: i2c_write_def)
next
  case (Suc m)
  let ?w1 = "w\<lparr>transfers := transfers w + 1, trace := trace w @ [I2C_write [addr] ia]\<rparr>"
  let ?w2 = "k_sleep 10 ?w1"
  from Suc.prems(2) have nz: "fst (answers w (transfers w)) \<noteq> 0"
    by (metis add.right_neutral zero_less_Suc)
  have rest: "\<forall>k < m. fst (answers ?w2 (transfers ?w2 + k)) \<noteq> 0"
  proof (intro allI impI)
    fix k assume "k < m"
    then have "Suc k < Suc m" by simp
    with Suc.prems(2) have "fst (answers w (transfers w + Suc k)) \<noteq> 0" by blast
    then show "fst (answers ?w2 (transfers ?w2 + k)) \<noteq> 0"
      by (simp add: k_sleep_def)
  qed
  have ack: "fst (answers ?w2 (transfers ?w2 + m)) = 0"
    using Suc.prems(3) by (simp add: k_sleep_def)
  have "(i + 1) + m < 5"
    using Suc.prems(1) by simp
  then have "select_loop ia addr (i + 1) (fst (answers w (transfers w))) ?w2 =
           (True, 0, (i + 1) + m,
            ?w2\<lparr>transfers := transfers ?w2 + m + 1,
               trace := trace ?w2 @ concat (replicate m [I2C_write [addr] ia, K_sleep 10])
                          @ [I2C_write [addr] ia]\<rparr>)"
    using rest ack by (rule Suc.IH)
  then show ?case
    using Suc.prems(1) nz by (subst select_loop.simps) (simp add: i2c_write_def k_sleep_def)
qed

lemma read_loop_all_nack:
  assumes "i \<le> 5"
    and "\<forall>k < 5 - i. fst (answers w (transfers w + k)) \<noteq> 0"
  shows "\<exists>r b. read_loop ia len i res buf w =
           (False, r, 5, b,
            w\<lparr>transfers := transfers w + (5 - i),
              trace := trace w @ concat (replicate (5 - i) [I2C_read len ia, K_sleep 10])\<rparr>)"
  using assms
proof (induction ia len i res buf w rule: read_loop.induct)
  case (1 ia len i res buf w)
  show ?case
  proof (cases "i < 5")
    case False
    with "1.prems" have "i = 5" by simp
    then show ?thesis by (subst read_loop.simps) simp
  next
    case True
    obtain res1 buf1 w1 where w: "i2c_read len ia w = ((res1, buf1), w1)"
      by (metis surj_pair)
    then have res1: "res1 = fst (answers w (transfers w))"
      and w1: "w1 = w\<lparr>transfers := transfers w + 1, trace := trace w @ [I2C_read len ia]\<rparr>"
      by (auto simp: i2c_read_def)
    from "1.prems"(2) True have nz: "res1 \<noteq> 0"
      unfolding res1 by (metis add.right_neutral zero_less_diff)
    let ?w2 = "k_sleep 10 w1"
    have rest: "\<forall>k < 5 - (i + 1). fst (answers ?w2 (transfers ?w2 + k)) \<noteq> 0"
    proof (intro allI impI)
      fix k assume "k < 5 - (i + 1)"
      then have "k + 1 < 5 - i" by simp
      with "1.prems"(2) have "fst (answers w (transfers w + (k + 1))) \<noteq> 0" by blast
      then show "fst (answers ?w2 (transfers ?w2 + k)) \<noteq> 0"
        by (simp add: w1 k_sleep_def add.commute add.left_commute)
    qed
    have "i + 1 \<le> 5"
      using True by simp
    from "1.IH" [OF True w [symmetric] refl nz this rest] obtain r b where
      "read_loop ia len (i + 1) res1 buf1 ?w2 =
         (False, r, 5, b,
          ?w2\<lparr>transfers := transfers ?w2 + (5 - (i + 1)),
               trace := trace ?w2 @ concat (replicate (5 - (i + 1)) [I2C_read len ia, K_sleep 10])\<rparr>)"
      by auto
    moreover have "5 - i = Suc (5 - (i + 1))"
      using True by simp
    ultimately show ?thesis
      using True w nz by (subst read_loop.simps) (simp add: w1 k_sleep_def)
  qed
qed

lemma read_loop_ack:
  assumes "i + m < 5"
    and "\<forall>k < m. fst (answers w (transfers w + k)) \<noteq> 0"
    and "fst (answers w (transfers w + m)) = 0"
  shows "read_loop ia len i res buf w =
           (True, 0, i + m, snd (answers w (transfers w + m)),
            w\<lparr>transfers := transfers w + m + 1,
              trace := trace w @ concat (replicate m [I2C_read len ia, K_sleep 10])
                         @ [I2C_read len ia]\<rparr>)"
  using assms
proof (induction m arbitrary: i res buf w)
  case 0
  then show ?case
    by (subst read_loop.simps) (auto simp: i2c_read_def split: prod.splits)
next
  case (Suc m)
  let ?w1 = "w\<lparr>transfers := transfers w + 1, trace := trace w @ [I2C_read len ia]\<rparr>"
  let ?w2 = "k_sleep 10 ?w1"
  from Suc.prems(2) have nz: "fst (answers w (transfers w)) \<noteq> 0"
    by (metis add.right_neutral zero_less_Suc)
  have rest: "\<forall>k < m. fst (answers ?w2 (transfers ?w2 + k)) \<noteq> 0"
  proof (intro allI impI)
    fix k assume "k < m"
    then have "Suc k < Suc m" by simp
    with Suc.prems(2) have "fst (answers w (transfers w + Suc k)) \<noteq> 0" by blast
    then show "fst (answers ?w2 (transfers ?w2 + k)) \<noteq> 0"
      by (simp add: k_sleep_def)
  qed
  have ack: "fst (answers ?w2 (transfers ?w2 + m)) = 0"
    using Suc.prems(3) by (simp add: k_sleep_def)
  have "(i + 1) + m < 5"
    using Suc.prems(1) by simp
  then have "read_loop ia len (i + 1) (fst (answers w (transfers w)))
               (snd (answers w (transfers w))) ?w2 =
           (True, 0, (i + 1) + m, snd (answers ?w2 (transfers ?w2 + m)),
            ?w2\<lparr>transfers := transfers ?w2 + m + 1,
               trace := trace ?w2 @ concat (replicate m [I2C_read len ia, K_sleep 10])
                          @ [I2C_read len ia]\<rparr>)"
    using rest ack by (rule Suc.IH)
  then show ?case
    using Suc.prems(1) nz
    by (subst read_loop.simps) (auto simp: i2c_read_def k_sleep_def split: prod.splits)
qed

text \<open>
  C8. \<open>optiga_reg_read\<close> first writes the register address, in up to 5 attempts, and
  then reads \<open>len\<close> bytes, in up to 5 attempts, sleeping 10 ms after every attempt that
  fails. Counting the transfers from the call on:
  \<^item> when the first 5 transfers all fail, the result is \<^verbatim>\<open>-EIO\<close> after 5 writes, each
    followed by a sleep, and no read is attempted;
  \<^item> when the write succeeds at attempt \<open>m < 5\<close> and the 5 transfers after it all fail,
    the result is \<^verbatim>\<open>-EIO\<close> after 5 reads, each followed by a sleep;
  \<^item> when the write succeeds at attempt \<open>m < 5\<close> and the read at attempt \<open>n < 5\<close>, the
    result is 0 with the bytes of that read, and the read is the last thing done.
\<close>

theorem optiga_reg_read_two_phase:
  "((\<forall>k < 5. fst (answers w (transfers w + k)) \<noteq> 0) \<longrightarrow>
      optiga_reg_read ia addr buf len w =
        (- EIO, buf,
         w\<lparr>transfers := transfers w + 5,
           trace := trace w @ concat (replicate 5 [I2C_write [addr] ia, K_sleep 10])\<rparr>))
   \<and> (m < 5 \<and> (\<forall>k < m. fst (answers w (transfers w + k)) \<noteq> 0)
        \<and> fst (answers w (transfers w + m)) = 0
        \<and> (\<forall>k < 5. fst (answers w (transfers w + m + 1 + k)) \<noteq> 0) \<longrightarrow>
      (\<exists>b. optiga_reg_read ia addr buf len w =
        (- EIO, b,
         w\<lparr>transfers := transfers w + m + 6,
           trace := trace w @ concat (replicate m [I2C_write [addr] ia, K_sleep 10])
                      @ [I2C_write [addr] ia]
                      @ concat (replicate 5 [I2C_read len ia, K_sleep 10])\<rparr>)))
   \<and> (m < 5 \<and> (\<forall>k < m. fst (answers w (transfers w + k)) \<noteq> 0)
        \<and> fst (answers w (transfers w + m)) = 0
        \<and> n < 5 \<and> (\<forall>k < n. fst (answers w (transfers w + m + 1 + k)) \<noteq> 0)
        \<and> fst (answers w (transfers w + m + 1 + n)) = 0 \<longrightarrow>
      optiga_reg_read ia addr buf len w =
        (0, snd (answers w (transfers w + m + 1 + n)),
         w\<lparr>transfers := transfers w + m + n + 2,
           trace := trace w @ concat (replicate m [I2C_write [addr] ia, K_sleep 10])
                      @ [I2C_write [addr] ia]
                      @ concat (replicate n [I2C_read len ia, K_sleep 10])
                      @ [I2C_read len ia]\<rparr>))"
proof (intro conjI impI)
  assume "\<forall>k < 5. fst (answers w (transfers w + k)) \<noteq> 0"
  with select_loop_all_nack [of 0 w ia addr 0] obtain r where
    "select_loop ia addr 0 0 w =
       (False, r, 5,
        w\<lparr>transfers := transfers w + 5,
          trace := trace w @ concat (replicate 5 [I2C_write [addr] ia, K_sleep 10])\<rparr>)"
    by auto
  then show "optiga_reg_read ia addr buf len w =
        (- EIO, buf,
         w\<lparr>transfers := transfers w + 5,
           trace := trace w @ concat (replicate 5 [I2C_write [addr] ia, K_sleep 10])\<rparr>)"
    by (simp add: optiga_reg_read_def)
next
  let ?w1 = "w\<lparr>transfers := transfers w + m + 1,
               trace := trace w @ concat (replicate m [I2C_write [addr] ia, K_sleep 10])
                          @ [I2C_write [addr] ia]\<rparr>"
  assume a: "m < 5 \<and> (\<forall>k < m. fst (answers w (transfers w + k)) \<noteq> 0)
        \<and> fst (answers w (transfers w + m)) = 0
        \<and> (\<forall>k < 5. fst (answers w (transfers w + m + 1 + k)) \<noteq> 0)"
  then have sel: "select_loop ia addr 0 0 w = (True, 0, 0 + m, ?w1)"
    by (intro select_loop_ack) simp_all
  from a have "\<forall>k < 5 - 0. fst (answers ?w1 (transfers ?w1 + k)) \<noteq> 0"
    by simp
  with read_loop_all_nack [of 0 ?w1 ia len 0 buf] obtain r b where
    "read_loop ia len 0 0 buf ?w1 =
       (False, r, 5, b,
        ?w1\<lparr>transfers := transfers ?w1 + (5 - 0),
            trace := trace ?w1 @ concat (replicate (5 - 0) [I2C_read len ia, K_sleep 10])\<rparr>)"
    by auto
  with sel have "optiga_reg_read ia addr buf len w =
        (- EIO, b,
         w\<lparr>transfers := transfers w + m + 6,
           trace := trace w @ concat (replicate m [I2C_write [addr] ia, K_sleep 10])
                      @ [I2C_write [addr] ia]
                      @ concat (replicate 5 [I2C_read len ia, K_sleep 10])\<rparr>)"
    by (simp add: optiga_reg_read_def)
  then show "\<exists>b. optiga_reg_read ia addr buf len w =
        (- EIO, b,
         w\<lparr>transfers := transfers w + m + 6,
           trace := trace w @ concat (replicate m [I2C_write [addr] ia, K_sleep 10])
                      @ [I2C_write [addr] ia]
                      @ concat (replicate 5 [I2C_read len ia, K_sleep 10])\<rparr>)"
    by blast
next
  let ?w1 = "w\<lparr>transfers := transfers w + m + 1,
               trace := trace w @ concat (replicate m [I2C_write [addr] ia, K_sleep 10])
                          @ [I2C_write [addr] ia]\<rparr>"
  assume a: "m < 5 \<and> (\<forall>k < m. fst (answers w (transfers w + k)) \<noteq> 0)
        \<and> fst (answers w (transfers w + m)) = 0
        \<and> n < 5 \<and> (\<forall>k < n. fst (answers w (transfers w + m + 1 + k)) \<noteq> 0)
        \<and> fst (answers w (transfers w + m + 1 + n)) = 0"
  then have sel: "select_loop ia addr 0 0 w = (True, 0, 0 + m, ?w1)"
    by (intro select_loop_ack) simp_all
  from a have "read_loop ia len 0 0 buf ?w1 =
       (True, 0, 0 + n, snd (answers ?w1 (transfers ?w1 + n)),
        ?w1\<lparr>transfers := transfers ?w1 + n + 1,
            trace := trace ?w1 @ concat (replicate n [I2C_read len ia, K_sleep 10])
                       @ [I2C_read len ia]\<rparr>)"
    by (intro read_loop_ack) simp_all
  with sel show "optiga_reg_read ia addr buf len w =
        (0, snd (answers w (transfers w + m + 1 + n)),
         w\<lparr>transfers := transfers w + m + n + 2,
           trace := trace w @ concat (replicate m [I2C_write [addr] ia, K_sleep 10])
                      @ [I2C_write [addr] ia]
                      @ concat (replicate n [I2C_read len ia, K_sleep 10])
                      @ [I2C_read len ia]\<rparr>)"
    by (simp add: optiga_reg_read_def add.assoc)
qed

theorem optiga_reg_read_two_phase_witness:
  "optiga_reg_read 0x30 0x82 [0, 0, 0, 0] 4
     \<lparr>answers = (\<lambda>k. if k = 2 then (0, []) else if k = 4 then (0, [0x08, 0x80, 0x00, 0x00])
                      else (- 5, [])),
      transfers = 0, trace = []\<rparr>
   = (0, [0x08, 0x80, 0x00, 0x00],
      \<lparr>answers = (\<lambda>k. if k = 2 then (0, []) else if k = 4 then (0, [0x08, 0x80, 0x00, 0x00])
                       else (- 5, [])),
       transfers = 5,
       trace = [I2C_write [0x82] 0x30, K_sleep 10, I2C_write [0x82] 0x30, K_sleep 10,
                I2C_write [0x82] 0x30, I2C_read 4 0x30, K_sleep 10, I2C_read 4 0x30]\<rparr>)"
  using optiga_reg_read_two_phase [of
      "\<lparr>answers = (\<lambda>k. if k = 2 then (0, []) else if k = 4 then (0, [0x08, 0x80, 0x00, 0x00])
                        else (- 5, [])),
        transfers = 0, trace = []\<rparr>" "0x30" "0x82" "[0, 0, 0, 0]" 4 2 1]
  by (simp add: numeral_eq_Suc less_Suc_eq)

subsection \<open>The command encoders\<close>

lemma iteration_raises_signalled:
  assumes "worker_iteration lo a d = Inr d'"
  shows "\<exists>new. raised d' = raised d @ new \<and> (\<forall>x \<in> set new. fst (finished x))"
  using assms
  by (auto simp: worker_iteration_def invalidate_queue_eq k_poll_signal_raise_def Let_def
        split: if_splits prod.splits)

lemma worker_raises_signalled:
  assumes "optiga_worker lo d = Inr d'"
  shows "\<exists>new. raised d' = raised d @ new \<and> (\<forall>x \<in> set new. fst (finished x))"
  using assms
proof (induction lo d rule: optiga_worker.induct)
  case (1 lo d)
  show ?case
  proof (cases "apdu_queue d")
    case Nil
    with "1.prems" show ?thesis by (subst (asm) optiga_worker.simps) auto
  next
    case (Cons a q)
    with "1.prems" obtain d1 where
      it: "worker_iteration lo a (d\<lparr>apdu_queue := q\<rparr>) = Inr d1" and
      run: "optiga_worker lo d1 = Inr d'"
      by (subst (asm) optiga_worker.simps) (auto split: sum.splits)
    from iteration_raises_signalled [OF it] obtain new1 where
      "raised d1 = raised d @ new1" "\<forall>x \<in> set new1. fst (finished x)"
      by auto
    moreover from "1.IH" [OF Cons it run] obtain new2 where
      "raised d' = raised d1 @ new2" "\<forall>x \<in> set new2. fst (finished x)"
      by auto
    ultimately have "raised d' = raised d @ (new1 @ new2)"
      "\<forall>x \<in> set (new1 @ new2). fst (finished x)"
      by auto
    then show ?thesis by blast
  qed
qed

lemma submit_completes:
  assumes "cmds_submit_apdu lo ctx d = Inr (res, ctx', d')"
  shows "apdu ctx' \<in> set (drop (length (raised d)) (raised d')) \<and>
         apdu_addr (apdu ctx') = apdu_addr (apdu ctx) \<and> finished (apdu ctx') = (True, res)"
proof -
  let ?d1 = "snd (enqueue_apdu (apdu ctx) d)"
  from assms obtain x where
    run: "optiga_worker lo ?d1 = Inr d'" and
    f: "find (\<lambda>x. apdu_addr x = apdu_addr (apdu ctx)) (rev (drop (length (raised d)) (raised d')))
          = Some x" and
    r: "res = snd (finished x)" "ctx' = ctx\<lparr>apdu := x\<rparr>"
    by (auto simp: cmds_submit_apdu_def split: prod.splits sum.splits option.splits)
  from f have "x \<in> set (rev (drop (length (raised d)) (raised d')))"
    by (metis find_Some_iff nth_mem)
  moreover from f have "apdu_addr x = apdu_addr (apdu ctx)"
    by (metis (mono_tags, lifting) find_Some_iff)
  ultimately have x: "x \<in> set (drop (length (raised d)) (raised d'))"
    "apdu_addr x = apdu_addr (apdu ctx)"
    by simp_all
  from worker_raises_signalled [OF run] obtain new where
    "raised d' = raised d @ new" "\<forall>x \<in> set new. fst (finished x)"
    by (auto simp: enqueue_apdu_def)
  with x(1) have "fst (finished x)" by simp
  with x r show ?thesis by (simp add: prod_eq_iff)
qed

lemmas data_get_eval =
  optrust_data_get_def cmds_submit_apdu_def enqueue_apdu_def k_poll_signal_init_def
  optiga_worker.simps worker_iteration_def optiga_transfer_apdu_def optiga_apdu_is_error_def
  k_poll_signal_raise_def scripted_def cmds_set_apdu_header_def cmds_get_apdu_header_def
  sys_put_be16_def sys_get_be16_def received_into_def memcpy_at_def OPTIGA_GET_DATA_CMD_LEN_def
  OPTIGA_TRUSTX_CMD_GET_DATA_OBJECT_def OPTIGA_TRUSTX_IN_DATA_OFFSET_def
  OPTIGA_TRUSTX_IN_LEN_OFFSET_def OPTIGA_TRUSTX_CMD_OFFSET_def OPTIGA_TRUSTX_PARAM_OFFSET_def
  OPTIGA_TRUSTX_STA_OFFSET_def OPTIGA_TRUSTX_OUT_LEN_OFFSET_def
  OPTIGA_TRUSTX_OUT_DATA_OFFSET_def OPTIGA_STATUS_CODE_SUCCESS_def OPTIGA_MAX_RESET_def
  OPTIGA_APDU_STA_OFFSET_def OPTIGA_APDU_STA_SUCCESS_def Let_def

lemma ten_bytes:
  assumes "10 \<le> length (b :: u8 list)"
  obtains a0 a1 a2 a3 a4 a5 a6 a7 a8 a9 r where "b = a0 # a1 # a2 # a3 # a4 # a5 # a6 # a7 # a8 # a9 # r"
proof -
  from assms have "\<exists>a0 a1 a2 a3 a4 a5 a6 a7 a8 a9 r.
      b = a0 # a1 # a2 # a3 # a4 # a5 # a6 # a7 # a8 # a9 # r"
    by (simp add: numeral_eq_Suc Suc_le_length_iff) blast
  with that show thesis by blast
qed

lemma submit_returns:
  assumes "nonempty_responses lo"
  shows "\<exists>res ctx2 d2. cmds_submit_apdu lo c d = Inr (res, ctx2, d2)"
proof -
  let ?d1 = "snd (enqueue_apdu (apdu c) d)"
  from worker_run [OF assms, of ?d1] obtain d' new where
    run: "optiga_worker lo ?d1 = Inr d'" and
    r: "raised d' = raised ?d1 @ new" and
    m: "map apdu_addr new = map apdu_addr (apdu_queue ?d1)"
    by blast
  have "raised ?d1 = raised d"
    by (simp add: enqueue_apdu_def)
  with r have new: "drop (length (raised d)) (raised d') = new"
    by simp
  have "apdu_addr (apdu c) \<in> set (map apdu_addr (apdu_queue ?d1))"
    by (simp add: enqueue_apdu_def k_poll_signal_init_def)
  with m have "\<exists>x \<in> set new. apdu_addr x = apdu_addr (apdu c)"
    by (metis (no_types, lifting) imageE list.set_map)
  then have "find (\<lambda>x. apdu_addr x = apdu_addr (apdu c)) (rev new) \<noteq> None"
    by (auto simp: find_None_iff)
  then obtain x where "find (\<lambda>x. apdu_addr x = apdu_addr (apdu c)) (rev new) = Some x"
    by blast
  with run new show ?thesis
    by (simp add: cmds_submit_apdu_def enqueue_apdu_def split: prod.splits)
qed


text \<open>
  C9 as stated fails for \<open>optrust_data_get\<close>. The caller offers one byte, the element
  answers with two bytes of data. The call returns \<^verbatim>\<open>-ENOMEM\<close> and leaves the caller's
  buffer alone, but the request was not turned away before the queue: the GetDataObject
  APDU has gone out, the response has been received over the request in the APDU buffer,
  and the signal of the descriptor has been raised with outcome 0.
\<close>

theorem data_get_small_buffer_counterexample:
  "seen (optrust_data_get scripted
           \<lparr>apdu_buf = [0, 0, 0, 0, 0, 0, 0, 0, 0, 0, 0, 0],
            apdu = \<lparr>apdu_addr = 16, tx_buf = [], rx_buf = [], rx_len = 0, finished = (False, 0)\<rparr>\<rparr>
           0xE0C2 0 [0xFF] 1
           \<lparr>reset_counter = 0, apdu_queue = [],
            device = \<lparr>inits = 0, sent = [],
                      replies = [(0, [0x00, 0x00, 0x00, 0x02, 0xAA, 0xBB])]\<rparr>,
            raised = []\<rparr>)
   = Inr (- ENOMEM, [0xFF], 1,
          [0x00, 0x00, 0x00, 0x02, 0xAA, 0xBB, 0x00, 0x00, 0x00, 0x01, 0, 0],
          [[0x81, 0x00, 0x00, 0x06, 0xE0, 0xC2, 0x00, 0x00, 0x00, 0x01]],
          [(16, True, 0)])"
  by (simp add: data_get_eval)

text \<open>
  C9, amended. With an APDU buffer of at least 10 bytes and a transport that never reports
  success with an empty response, \<open>optrust_data_get\<close> always submits its descriptor, which
  carries the 10-byte GetDataObject request, and comes back from the wait: the signal of
  the descriptor has been raised during the call, with the outcome \<open>res\<close>. Only then is
  the caller's buffer looked at. When the outcome is 0 and the response is complete
  (at least 4 bytes, status byte 0, announced data length equal to the response length
  minus 4), the call returns \<^verbatim>\<open>-ENOMEM\<close> if the announced data length exceeds the
  caller's \<open>len\<close>, leaving the caller's buffer and length as they were, and otherwise
  copies the data and returns 0. Every other outcome of the exchange gives \<^verbatim>\<open>-EIO\<close> or
  a failed assertion, whatever the size of the caller's buffer.
\<close>

theorem data_get_small_buffer_rejected_after_exchange:
  assumes "nonempty_responses lo"
    and "10 \<le> length (apdu_buf ctx)"
    and "req = [0x81, 0x00, 0x00, 0x06, ucast (drop_bit 8 oid), ucast oid,
                ucast (drop_bit 8 (of_nat offs :: u16)), ucast (of_nat offs :: u16),
                ucast (drop_bit 8 (of_nat len :: u16)), ucast (of_nat len :: u16)]"
    and "mem = req @ drop 10 (apdu_buf ctx)"
  shows "\<exists>res ctx2 d2.
           cmds_submit_apdu lo
             (ctx\<lparr>apdu_buf := mem,
                  apdu := (apdu ctx)\<lparr>tx_buf := req, rx_buf := mem,
                                      rx_len := length (apdu_buf ctx)\<rparr>\<rparr>) d
             = Inr (res, ctx2, d2)
           \<and> (\<exists>x \<in> set (drop (length (raised d)) (raised d2)).
                 apdu_addr x = apdu_addr (apdu ctx) \<and> finished x = (True, res) \<and>
                 rx_buf x = rx_buf (apdu ctx2) \<and> rx_len x = rx_len (apdu ctx2))
           \<and> optrust_data_get lo ctx oid offs buf len d =
               (let rx = rx_buf (apdu ctx2);
                    out_len = unat (sys_get_be16 2 rx);
                    mem' = received_into mem 0 rx;
                    ctx3 = ctx2\<lparr>apdu_buf := mem', apdu := (apdu ctx2)\<lparr>tx_buf := take 10 mem'\<rparr>\<rparr>
                in if res \<noteq> 0 then Inr (- EIO, buf, len, ctx3, d2)
                   else if rx_len (apdu ctx2) < 4 \<or> rx ! 0 \<noteq> 0 then Inl Assert_failed
                   else if out_len \<noteq> rx_len (apdu ctx2) - 4 then Inr (- EIO, buf, len, ctx3, d2)
                   else if len < out_len then Inr (- ENOMEM, buf, len, ctx3, d2)
                   else Inr (0, memcpy_at 0 (take out_len (drop 4 rx)) buf, out_len, ctx3, d2))"
proof -
  let ?ctx1 = "ctx\<lparr>apdu_buf := mem,
                   apdu := (apdu ctx)\<lparr>tx_buf := req, rx_buf := mem,
                                       rx_len := length (apdu_buf ctx)\<rparr>\<rparr>"
  from submit_returns [OF assms(1)] obtain res ctx2 d2 where
    sub: "cmds_submit_apdu lo ?ctx1 d = Inr (res, ctx2, d2)"
    by blast
  from submit_completes [OF sub] have
    sig: "\<exists>x \<in> set (drop (length (raised d)) (raised d2)).
            apdu_addr x = apdu_addr (apdu ctx) \<and> finished x = (True, res) \<and>
            rx_buf x = rx_buf (apdu ctx2) \<and> rx_len x = rx_len (apdu ctx2)"
    by auto
  from assms(2) obtain a0 a1 a2 a3 a4 a5 a6 a7 a8 a9 r where
    b: "apdu_buf ctx = a0 # a1 # a2 # a3 # a4 # a5 # a6 # a7 # a8 # a9 # r"
    by (rule ten_bytes)
  have "optrust_data_get lo ctx oid offs buf len d =
               (let rx = rx_buf (apdu ctx2);
                    out_len = unat (sys_get_be16 2 rx);
                    mem' = received_into mem 0 rx;
                    ctx3 = ctx2\<lparr>apdu_buf := mem', apdu := (apdu ctx2)\<lparr>tx_buf := take 10 mem'\<rparr>\<rparr>
                in if res \<noteq> 0 then Inr (- EIO, buf, len, ctx3, d2)
                   else if rx_len (apdu ctx2) < 4 \<or> rx ! 0 \<noteq> 0 then Inl Assert_failed
                   else if out_len \<noteq> rx_len (apdu ctx2) - 4 then Inr (- EIO, buf, len, ctx3, d2)
                   else if len < out_len then Inr (- ENOMEM, buf, len, ctx3, d2)
                   else Inr (0, memcpy_at 0 (take out_len (drop 4 rx)) buf, out_len, ctx3, d2))"
    using sub
    by (simp add: assms(3,4) b optrust_data_get_def cmds_set_apdu_header_def
          cmds_get_apdu_header_def sys_put_be16_def OPTIGA_GET_DATA_CMD_LEN_def
          OPTIGA_TRUSTX_CMD_GET_DATA_OBJECT_def OPTIGA_TRUSTX_IN_DATA_OFFSET_def
          OPTIGA_TRUSTX_IN_LEN_OFFSET_def OPTIGA_TRUSTX_CMD_OFFSET_def
          OPTIGA_TRUSTX_PARAM_OFFSET_def OPTIGA_TRUSTX_STA_OFFSET_def
          OPTIGA_TRUSTX_OUT_LEN_OFFSET_def OPTIGA_TRUSTX_OUT_DATA_OFFSET_def
          OPTIGA_STATUS_CODE_SUCCESS_def Let_def not_le)
  with sub sig show ?thesis
    by blast
qed


theorem data_get_small_buffer_rejected_after_exchange_witness:
  "nonempty_responses scripted
   \<and> seen (optrust_data_get scripted
             \<lparr>apdu_buf = [0, 0, 0, 0, 0, 0, 0, 0, 0, 0, 0, 0],
              apdu = \<lparr>apdu_addr = 32, tx_buf = [], rx_buf = [], rx_len = 0, finished = (False, 0)\<rparr>\<rparr>
             0xE0E0 0 [0xFF, 0xFF] 2
             \<lparr>reset_counter = 0, apdu_queue = [],
              device = \<lparr>inits = 0, sent = [],
                        replies = [(0, [0x00, 0x00, 0x00, 0x03, 0xAA, 0xBB, 0xCC])]\<rparr>,
              raised = []\<rparr>)
     = Inr (- ENOMEM, [0xFF, 0xFF], 2,
            [0x00, 0x00, 0x00, 0x03, 0xAA, 0xBB, 0xCC, 0x00, 0x00, 0x02, 0, 0],
            [[0x81, 0x00, 0x00, 0x06, 0xE0, 0xE0, 0x00, 0x00, 0x00, 0x02]],
            [(32, True, 0)])"
proof -
  let ?ctx = "\<lparr>apdu_buf = [0, 0, 0, 0, 0, 0, 0, 0, 0, 0, 0, 0 :: u8],
               apdu = \<lparr>apdu_addr = 32, tx_buf = [], rx_buf = [], rx_len = 0,
                       finished = (False, 0 :: int)\<rparr>\<rparr>"
  let ?d = "\<lparr>reset_counter = 0, apdu_queue = [],
             device = \<lparr>inits = 0, sent = [],
                       replies = [(0 :: int, [0x00, 0x00, 0x00, 0x03, 0xAA, 0xBB, 0xCC :: u8])]\<rparr>,
             raised = []\<rparr>"
  let ?req = "[0x81, 0x00, 0x00, 0x06, 0xE0, 0xE0, 0x00, 0x00, 0x00, 0x02] :: u8 list"
  let ?mem = "?req @ [0, 0]"
  have big: "10 \<le> length (apdu_buf ?ctx)"
    by simp
  have req: "?req = [0x81, 0x00, 0x00, 0x06, ucast (drop_bit 8 (0xE0E0 :: u16)), ucast (0xE0E0 :: u16),
                ucast (drop_bit 8 (of_nat 0 :: u16)), ucast (of_nat 0 :: u16),
                ucast (drop_bit 8 (of_nat 2 :: u16)), ucast (of_nat 2 :: u16)]"
    by simp
  have mem: "?mem = ?req @ drop 10 (apdu_buf ?ctx)"
    by simp
  from data_get_small_buffer_rejected_after_exchange
         [OF scripted_nonempty big req mem, of ?d "[0xFF, 0xFF]"]
  obtain res ctx2 d2 where
    sub: "cmds_submit_apdu scripted
            (?ctx\<lparr>apdu_buf := ?mem,
                  apdu := (apdu ?ctx)\<lparr>tx_buf := ?req, rx_buf := ?mem,
                                       rx_len := length (apdu_buf ?ctx)\<rparr>\<rparr>) ?d
            = Inr (res, ctx2, d2)" and
    eq: "optrust_data_get scripted ?ctx 0xE0E0 0 [0xFF, 0xFF] 2 ?d =
               (let rx = rx_buf (apdu ctx2);
                    out_len = unat (sys_get_be16 2 rx);
                    mem' = received_into ?mem 0 rx;
                    ctx3 = ctx2\<lparr>apdu_buf := mem', apdu := (apdu ctx2)\<lparr>tx_buf := take 10 mem'\<rparr>\<rparr>
                in if res \<noteq> 0 then Inr (- EIO, [0xFF, 0xFF], 2, ctx3, d2)
                   else if rx_len (apdu ctx2) < 4 \<or> rx ! 0 \<noteq> 0 then Inl Assert_failed
                   else if out_len \<noteq> rx_len (apdu ctx2) - 4
                     then Inr (- EIO, [0xFF, 0xFF], 2, ctx3, d2)
                   else if 2 < out_len then Inr (- ENOMEM, [0xFF, 0xFF], 2, ctx3, d2)
                   else Inr (0, memcpy_at 0 (take out_len (drop 4 rx)) [0xFF, 0xFF], out_len,
                             ctx3, d2))"
    by blast
  from sub have res: "res = 0"
    and ctx2: "ctx2 = ?ctx\<lparr>apdu_buf := ?mem,
                  apdu := \<lparr>apdu_addr = 32, tx_buf = ?req,
                          rx_buf = [0x00, 0x00, 0x00, 0x03, 0xAA, 0xBB, 0xCC],
                          rx_len = 7, finished = (True, 0)\<rparr>\<rparr>"
    and d2: "d2 = \<lparr>reset_counter = 0, apdu_queue = [],
                   device = \<lparr>inits = 0, sent = [?req], replies = []\<rparr>,
                   raised = [\<lparr>apdu_addr = 32, tx_buf = ?req,
                              rx_buf = [0x00, 0x00, 0x00, 0x03, 0xAA, 0xBB, 0xCC],
                              rx_len = 7, finished = (True, 0)\<rparr>]\<rparr>"
    by (auto simp: data_get_eval)
  show ?thesis
    unfolding eq res ctx2 d2
    by (simp add: scripted_nonempty sys_get_be16_def received_into_def memcpy_at_def Let_def)
qed

lemma asn1_sig_len_value:
  assumes "apdu_buf_len + tx_off < 2 ^ 32"
  shows "unat (asn1_sig_len apdu_buf_len tx_off) = apdu_buf_len + tx_off"
proof -
  have "unat (of_nat (apdu_buf_len + tx_off) :: 32 word) = apdu_buf_len + tx_off"
    using assms by (simp add: unat_of_nat del: of_nat_add)
  then show ?thesis
    by (simp add: asn1_sig_len_def)
qed

text \<open>
  C10, at an input where it fails: an APDU buffer of 64 bytes, a digest of 32 bytes and
  a raw signature of 64 bytes. The signature is to be written at offset 42, where 22
  bytes are left, but the capacity handed to the signature encoder is 106. An encoder
  that honours this capacity writes its 68 bytes, and the write runs past the end of the
  buffer.
\<close>

theorem verify_oid_capacity_exceeds_buffer:
  "unat (asn1_sig_len 64 42) = 106
   \<and> optrust_ecdsa_verify_oid bounded_encoder scripted
       \<lparr>apdu_buf = replicate 64 0,
        apdu = \<lparr>apdu_addr = 16, tx_buf = [], rx_buf = [], rx_len = 0, finished = (False, 0)\<rparr>\<rparr>
       0xE0E0 (replicate 32 0xAB) (replicate 64 0x11)
       \<lparr>reset_counter = 0, apdu_queue = [],
        device = \<lparr>inits = 0, sent = [], replies = []\<rparr>, raised = []\<rparr>
     = Inl Out_of_bounds"
proof -
  have cap: "unat (asn1_sig_len 64 42) = 106"
    using asn1_sig_len_value [of 64 42] by simp
  then show ?thesis
    by (simp add: optrust_ecdsa_verify_oid_def bounded_encoder_def set_tlv_def memcpy_at_def
          sys_put_be16_def OPTIGA_TRUSTX_IN_DATA_OFFSET_def SET_TLV_OVERHEAD_def Let_def)
qed

end
